theory Spec2Isabelle
  imports Main "HOL-Library.AList" "HOL-Library.Sublist" "HOL-Library.Multiset"
begin

section \<open>Data model of \<open>VideoKickBot\<close> (src/telegram\_bot.py)\<close>

text \<open>
  A key of the bot's dictionaries is the Python tuple \<open>(chat_id, user_id)\<close>.
  Time stamps are \<open>datetime\<close> values; they are modelled as the integer number of
  microseconds they hold, so that \<open>datetime.now() - join_time\<close> is an exact
  integer and \<open>total_seconds() <= 10\<close> is \<open>\<le> 10 * 1000000\<close> microseconds.
\<close>

type_synonym user_key = "int \<times> int"

subsection \<open>threading.Timer objects\<close>

text \<open>
  A \<open>threading.Timer\<close> is an object with identity. The model keeps all timers ever
  created in a store (a list); a timer's identity is its index. \<open>t_args\<close> are the
  arguments \<open>[chat_id, user_id, user_name]\<close> the callback \<open>_kick_user_timeout\<close>
  will get. The thread of a timer runs
  \<^verbatim>\<open>
  def run(self):
      self.finished.wait(self.interval)
      if not self.finished.is_set():
          self.function(*self.args, **self.kwargs)
      self.finished.set()
  \<close>
  and \<open>cancel()\<close> is \<open>self.finished.set()\<close>. The status of a timer says how far
  its thread has come:
  \<^item> \<open>Armed\<close>: started, in \<open>finished.wait\<close>;
  \<^item> \<open>Cancelled\<close>: \<open>cancel()\<close> came while it was \<open>Armed\<close>, so the test will find
    the event set and the callback is not called;
  \<^item> \<open>Woken\<close>: the wait is over and the test has found the event not set; the
    callback is about to be called, and a \<open>cancel()\<close> from here on does not stop it;
  \<^item> \<open>Released\<close>: the callback has run its block under \<open>pending_users_lock\<close>,
    has found and deleted an entry, and has released the lock;
  \<^item> \<open>Fired\<close>: the callback has returned.
\<close>

datatype timer_status = Armed | Cancelled | Woken | Released | Fired

record py_timer =
  t_interval :: int
  t_args :: "int \<times> int \<times> string"
  t_status :: timer_status

definition new_timer :: "int \<Rightarrow> int \<times> int \<times> string \<Rightarrow> py_timer list \<Rightarrow> nat \<times> py_timer list" where
  "new_timer d a ts = (length ts, ts @ [\<lparr>t_interval = d, t_args = a, t_status = Armed\<rparr>])"

text \<open>
  \<open>cancel()\<close> on the timer \<open>i\<close>: it stops a timer that is still waiting and has no
  effect on the callback of one that has passed its test.
\<close>

definition cancel :: "nat \<Rightarrow> py_timer list \<Rightarrow> py_timer list" where
  "cancel i ts =
     (if i < length ts \<and> t_status (ts ! i) = Armed
      then ts[i := (ts ! i)\<lparr>t_status := Cancelled\<rparr>] else ts)"

subsection \<open>The bot's state\<close>

text \<open>The value stored in \<open>pending_users\<close> under a key.\<close>

record pending_entry =
  timer :: nat
  join_time :: int
  user_name :: string

text \<open>The dictionary \<open>self.stats\<close> has exactly these six keys.\<close>

record bot_stats =
  users_kicked :: int
  users_verified :: int
  total_joins :: int
  spam_blocked :: int
  links_blocked :: int
  suspicious_kicked :: int

datatype stat_key = Spam_blocked | Links_blocked | Suspicious_kicked

fun stats_incr :: "stat_key \<Rightarrow> bot_stats \<Rightarrow> bot_stats" where
  "stats_incr Spam_blocked st = st\<lparr>spam_blocked := spam_blocked st + 1\<rparr>"
| "stats_incr Links_blocked st = st\<lparr>links_blocked := links_blocked st + 1\<rparr>"
| "stats_incr Suspicious_kicked st = st\<lparr>suspicious_kicked := suspicious_kicked st + 1\<rparr>"

text \<open>
  \<open>user_points\<close> is a Python dict whose iteration order (insertion order) is
  observable through the leaderboard, so it is an association list; the other
  dictionary is a map and \<open>verified_users\<close> a set.
\<close>

record bot =
  timeout_seconds :: int
  pending_users :: "user_key \<rightharpoonup> pending_entry"
  verified_users :: "user_key set"
  bot_paused :: bool
  interaction_mode :: bool
  anti_spam_enabled :: bool
  require_profile_pic :: bool
  banned_words :: "string list"
  custom_welcome :: string
  reward_system_enabled :: bool
  user_points :: "(user_key \<times> int) list"
  scheduled_mode :: bool
  active_hours :: "int \<times> int"
  stats :: bot_stats
  timers :: "py_timer list"

text \<open>\<open>__init__\<close>; the welcome template is kept without its emoji.\<close>

definition init :: "int \<Rightarrow> bot" where
  "init timeout =
     \<lparr>timeout_seconds = timeout,
      pending_users = Map.empty,
      verified_users = {},
      bot_paused = False,
      interaction_mode = False,
      anti_spam_enabled = True,
      require_profile_pic = False,
      banned_words = [''spam'', ''promotion'', ''advertisement'', ''buy now'', ''click here''],
      custom_welcome = ''Welcome {name}! Post a video within {timer} seconds to stay in the group!'',
      reward_system_enabled = True,
      user_points = [],
      scheduled_mode = False,
      active_hours = (8, 22),
      stats = \<lparr>users_kicked = 0, users_verified = 0, total_joins = 0,
               spam_blocked = 0, links_blocked = 0, suspicious_kicked = 0\<rparr>,
      timers = []\<rparr>"

subsection \<open>Updates and the gateway\<close>

record tg_user =
  user_id :: int
  full_name :: string
  username :: "string option"

record message =
  chat_id :: int
  message_id :: int
  from_user :: "tg_user option"
  msg_text :: "string option"

text \<open>
  The texts the bot sends, by kind and by the values formatted into them.
\<close>

datatype notice =
    PausedWelcome string
  | InteractionWelcome string
  | CustomWelcome string string int
  | KickNotice string int
  | VerifiedWithPoints string int int int
  | VerifiedPlain string int
  | Reminder string int
  | Warning string string
  | AdminOnly
  | Usage
  | RangeError
  | TimerUpdated int
  | InvalidNumber
  | PausedNow
  | ResumedNow
  | InteractionNow bool
  | AntispamNow bool
  | RewardsNow bool
  | WelcomeCurrent string
  | WelcomeUpdated string
  | NoPointsYet
  | Leaderboard "(nat \<times> int \<times> int) list"
  | ScheduleStatus bool "int \<times> int"
  | ScheduledModeNow bool "int \<times> int"
  | HoursSet int int
  | HoursRange
  | HoursInvalid

text \<open>
  Calls on \<open>context.bot\<close> and \<open>update.message\<close>. Any of them may raise; a gateway
  is the oracle that says which calls succeed. A handler returns the new state
  and the calls it attempted, in order.
\<close>

datatype call =
    BanChatMember int int
  | UnbanChatMember int int
  | SendMessage int notice
  | DeleteMessage int int
  | ReplyText notice

type_synonym gateway = "call \<Rightarrow> bool"

text \<open>
  A block of awaited calls inside one \<open>try\<close>: the first one that raises ends the
  block. The result is the calls attempted and whether all of them succeeded.
\<close>

fun attempt :: "gateway \<Rightarrow> call list \<Rightarrow> call list \<times> bool" where
  "attempt gw [] = ([], True)"
| "attempt gw (c # cs) =
     (if gw c then (let (done, ok) = attempt gw cs in (c # done, ok)) else ([c], False))"

section \<open>The verification tracker\<close>

text \<open>
  \<open>_handle_new_member\<close>. \<open>now\<close> is the value of \<open>datetime.now()\<close>. The welcome
  message is sent after the state has been updated and a failure to format or
  send it is only logged, so the state does not depend on the gateway.
\<close>

definition handle_new_member :: "int \<Rightarrow> int \<Rightarrow> int \<Rightarrow> string \<Rightarrow> bot \<Rightarrow> bot \<times> call list" where
  "handle_new_member now cid uid uname s =
     (let user_key = (cid, uid);
          s1 = s\<lparr>stats := (stats s)\<lparr>total_joins := total_joins (stats s) + 1\<rparr>\<rparr>
      in if bot_paused s1 then (s1, [SendMessage cid (PausedWelcome uname)])
         else if interaction_mode s1 then (s1, [SendMessage cid (InteractionWelcome uname)])
         else
           let ts1 = (case pending_users s1 user_key of
                        Some e \<Rightarrow> cancel (timer e) (timers s1)
                      | None \<Rightarrow> timers s1);
               (tid, ts2) = new_timer (timeout_seconds s1) (cid, uid, uname) ts1;
               s2 = s1\<lparr>pending_users := (pending_users s1)(user_key \<mapsto>
                          \<lparr>timer = tid, join_time = now, user_name = uname\<rparr>),
                       timers := ts2\<rparr>
           in (s2, [SendMessage cid
                      (CustomWelcome (custom_welcome s2) uname (timeout_seconds s2))]))"

text \<open>
  \<open>_kick_user_timeout\<close> in its three parts: the block under
  \<open>pending_users_lock\<close>, which deletes the entry and tells whether it was there
  (the source returns from the function when it was not); the check of
  \<open>verified_users\<close> after the lock has been released; and the nested coroutine
  \<open>kick_user\<close>, whose counter update comes after its three calls, inside the
  same \<open>try\<close>.
\<close>

definition kick_user :: "gateway \<Rightarrow> int \<Rightarrow> int \<Rightarrow> string \<Rightarrow> bot \<Rightarrow> bot \<times> call list" where
  "kick_user gw cid uid uname s =
     (let (done, ok) = attempt gw
            [BanChatMember cid uid, UnbanChatMember cid uid,
             SendMessage cid (KickNotice uname (timeout_seconds s))]
      in (if ok then s\<lparr>stats := (stats s)\<lparr>users_kicked := users_kicked (stats s) + 1\<rparr>\<rparr> else s,
          done))"

definition kick_lock_section :: "int \<Rightarrow> int \<Rightarrow> bot \<Rightarrow> bot \<times> bool" where
  "kick_lock_section cid uid s =
     (let user_key = (cid, uid)
      in if pending_users s user_key = None then (s, False)
         else (s\<lparr>pending_users := (pending_users s)(user_key := None)\<rparr>, True))"

definition kick_after_lock :: "gateway \<Rightarrow> int \<Rightarrow> int \<Rightarrow> string \<Rightarrow> bot \<Rightarrow> bot \<times> call list" where
  "kick_after_lock gw cid uid uname s =
     (if (cid, uid) \<in> verified_users s then (s, []) else kick_user gw cid uid uname s)"

definition kick_user_timeout :: "gateway \<Rightarrow> int \<Rightarrow> int \<Rightarrow> string \<Rightarrow> bot \<Rightarrow> bot \<times> call list" where
  "kick_user_timeout gw cid uid uname s =
     (let (s1, found) = kick_lock_section cid uid s
      in if found then kick_after_lock gw cid uid uname s1 else (s1, []))"

text \<open>
  The ledger update of \<open>handle_video_message\<close>:
  \<open>if user_key not in self.user_points: self.user_points[user_key] = 0\<close>, then
  \<open>self.user_points[user_key] += points_awarded\<close>.
\<close>

definition add_points :: "user_key \<Rightarrow> int \<Rightarrow> (user_key \<times> int) list \<Rightarrow> (user_key \<times> int) list" where
  "add_points k p ups =
     (let ups1 = (if map_of ups k = None then AList.update k 0 ups else ups)
      in AList.map_entry k (\<lambda>v. v + p) ups1)"

definition ledger_total :: "(user_key \<times> int) list \<Rightarrow> user_key \<Rightarrow> int" where
  "ledger_total ups k = (case map_of ups k of Some v \<Rightarrow> v | None \<Rightarrow> 0)"

text \<open>
  \<open>handle_video_message\<close>; the whole body runs under \<open>pending_users_lock\<close>.
  \<open>response_us\<close> is \<open>response_seconds\<close> in microseconds. The second component
  of the triple is \<open>points_awarded\<close>.
\<close>

definition video_verify :: "int \<Rightarrow> int \<Rightarrow> tg_user \<Rightarrow> pending_entry \<Rightarrow> bot \<Rightarrow> bot \<times> int \<times> call list" where
  "video_verify now cid u timer_info s =
     (let user_key = (cid, user_id u);
          ts = cancel (timer timer_info) (timers s);
          response_us = now - join_time timer_info;
          s1 = s\<lparr>timers := ts,
                 pending_users := (pending_users s)(user_key := None),
                 verified_users := insert user_key (verified_users s),
                 stats := (stats s)\<lparr>users_verified := users_verified (stats s) + 1\<rparr>\<rparr>;
          points_awarded =
            (if reward_system_enabled s1
             then (if response_us \<le> 10 * 1000000 then 100
                   else if response_us \<le> 30 * 1000000 then 50
                   else 25)
             else 0);
          s2 = (if reward_system_enabled s1
                then s1\<lparr>user_points := add_points user_key points_awarded (user_points s1)\<rparr>
                else s1)
      in (s2, points_awarded,
          [SendMessage cid
             (if points_awarded > 0
              then VerifiedWithPoints (full_name u) response_us points_awarded
                     (ledger_total (user_points s2) user_key)
              else VerifiedPlain (full_name u) response_us)]))"

definition handle_video_message :: "int \<Rightarrow> message option \<Rightarrow> bot \<Rightarrow> bot \<times> call list" where
  "handle_video_message now upd s =
     (case upd of
        None \<Rightarrow> (s, [])
      | Some m \<Rightarrow>
          (case from_user m of
             None \<Rightarrow> (s, [])
           | Some u \<Rightarrow>
               (case pending_users s (chat_id m, user_id u) of
                  None \<Rightarrow> (s, [])
                | Some timer_info \<Rightarrow>
                    (let (s2, points_awarded, calls) = video_verify now (chat_id m) u timer_info s
                     in (s2, calls)))))"

text \<open>
  \<open>handle_text_message\<close>. A missing \<open>update.message\<close> or \<open>from_user\<close> raises
  inside the \<open>try\<close> and is logged. The membership test is made before the lock
  is taken; there is no \<open>await\<close> between the test and the insertion.
\<close>

definition handle_text_message :: "int \<Rightarrow> message option \<Rightarrow> bot \<Rightarrow> bot \<times> call list" where
  "handle_text_message now upd s =
     (if \<not> interaction_mode s \<or> bot_paused s then (s, [])
      else
        (case upd of
           None \<Rightarrow> (s, [])
         | Some m \<Rightarrow>
             (case from_user m of
                None \<Rightarrow> (s, [])
              | Some u \<Rightarrow>
                  (let user_key = (chat_id m, user_id u)
                   in if pending_users s user_key = None \<and> user_key \<notin> verified_users s
                      then
                        let (tid, ts) = new_timer (timeout_seconds s)
                                          (chat_id m, user_id u, full_name u) (timers s);
                            s1 = s\<lparr>pending_users := (pending_users s)(user_key \<mapsto>
                                       \<lparr>timer = tid, join_time = now, user_name = full_name u\<rparr>),
                                   timers := ts\<rparr>
                        in (s1, [SendMessage (chat_id m)
                                   (Reminder (full_name u) (timeout_seconds s1))])
                      else (s, [])))))"

text \<open>
  The thread of a timer, in its atomic parts. \<open>timer_wakes\<close>: the interval has
  passed and the test finds the event not set. \<open>timer_locks\<close>: the callback
  \<open>_kick_user_timeout\<close> is called with the timer's arguments and runs its block
  under the lock; it looks the entry up by the key, whichever timer that entry
  holds. \<open>timer_finishes\<close>: the rest of the callback, after the lock.
\<close>

definition timer_wakes :: "nat \<Rightarrow> bot \<Rightarrow> bot \<times> call list" where
  "timer_wakes tid s =
     (if tid < length (timers s) \<and> t_status (timers s ! tid) = Armed
      then (s\<lparr>timers := (timers s)[tid := (timers s ! tid)\<lparr>t_status := Woken\<rparr>]\<rparr>, [])
      else (s, []))"

definition timer_locks :: "nat \<Rightarrow> bot \<Rightarrow> bot \<times> call list" where
  "timer_locks tid s =
     (if tid < length (timers s) \<and> t_status (timers s ! tid) = Woken
      then
        (let (cid, uid, uname) = t_args (timers s ! tid);
             (s1, found) = kick_lock_section cid uid s
         in (s1\<lparr>timers := (timers s1)[tid := (timers s1 ! tid)
                 \<lparr>t_status := (if found then Released else Fired)\<rparr>]\<rparr>, []))
      else (s, []))"

definition timer_finishes :: "gateway \<Rightarrow> nat \<Rightarrow> bot \<Rightarrow> bot \<times> call list" where
  "timer_finishes gw tid s =
     (if tid < length (timers s) \<and> t_status (timers s ! tid) = Released
      then
        (let (cid, uid, uname) = t_args (timers s ! tid);
             s1 = s\<lparr>timers := (timers s)[tid := (timers s ! tid)\<lparr>t_status := Fired\<rparr>]\<rparr>
         in kick_after_lock gw cid uid uname s1)
      else (s, []))"

text \<open>
  \<open>timer_fires\<close>: the thread of the timer runs from where it is to its end with
  no other thread in between. For a timer that is \<open>Armed\<close> or \<open>Woken\<close> that is
  the whole callback; for a \<open>Released\<close> one, the rest of it; a \<open>Cancelled\<close>
  timer ends without calling anything.
\<close>

definition timer_fires :: "gateway \<Rightarrow> nat \<Rightarrow> bot \<Rightarrow> bot \<times> call list" where
  "timer_fires gw tid s =
     (if tid < length (timers s)
         \<and> (t_status (timers s ! tid) = Armed \<or> t_status (timers s ! tid) = Woken)
      then
        (let (cid, uid, uname) = t_args (timers s ! tid);
             s1 = s\<lparr>timers := (timers s)[tid := (timers s ! tid)\<lparr>t_status := Fired\<rparr>]\<rparr>
         in kick_user_timeout gw cid uid uname s1)
      else timer_finishes gw tid s)"

section \<open>Spam detection\<close>

text \<open>
  \<open>str.lower()\<close> on the ASCII letters; \<open>x in y\<close> on strings is \<open>sublist x y\<close>.
\<close>

definition lower_char :: "char \<Rightarrow> char" where
  "lower_char c =
     (let n = (of_char c :: nat) in if 65 \<le> n \<and> n \<le> 90 then char_of (n + 32) else c)"

definition lower :: "string \<Rightarrow> string" where
  "lower t = map lower_char t"

definition link_patterns :: "string list" where
  "link_patterns = [''http'', ''www.'', ''.com'', ''.org'', ''t.me'']"

definition suspicious_patterns :: "string list" where
  "suspicious_patterns =
     [''crypto'', ''bitcoin'', ''forex'', ''investment'', ''profit'', ''earn'',
      ''casino'', ''betting'', ''loan'', ''pharmacy'', ''pills'']"

definition is_suspicious_username :: "tg_user \<Rightarrow> bool" where
  "is_suspicious_username u =
     (let uname = (case username u of None \<Rightarrow> [] | Some n \<Rightarrow> n);
          combined_text = lower (uname @ '' '' @ full_name u)
      in list_ex (\<lambda>pattern. sublist pattern combined_text) suspicious_patterns)"

text \<open>
  \<open>_handle_spam_violation\<close>: the counter is updated after the message has been
  deleted and before the sender is removed; a call that raises ends the handler.
\<close>

definition handle_spam_violation :: "gateway \<Rightarrow> message \<Rightarrow> tg_user \<Rightarrow> string \<Rightarrow> stat_key \<Rightarrow> bot \<Rightarrow> bot \<times> call list" where
  "handle_spam_violation gw m u reason key s =
     (if \<not> gw (DeleteMessage (chat_id m) (message_id m))
      then (s, [DeleteMessage (chat_id m) (message_id m)])
      else
        (let s1 = s\<lparr>stats := stats_incr key (stats s)\<rparr>;
             (done, ok) = attempt gw
               [BanChatMember (chat_id m) (user_id u), UnbanChatMember (chat_id m) (user_id u),
                SendMessage (chat_id m) (Warning (full_name u) reason)]
         in (s1, DeleteMessage (chat_id m) (message_id m) # done)))"

text \<open>
  The three checks of \<open>handle_spam_detection\<close>, in the order of the source; the
  result is the \<open>reason\<close> and \<open>stat_key\<close> passed to \<open>_handle_spam_violation\<close>,
  or \<open>None\<close> when no check matches. An empty or missing text is falsy.
\<close>

definition spam_verdict :: "message \<Rightarrow> tg_user \<Rightarrow> bot \<Rightarrow> (string \<times> stat_key) option" where
  "spam_verdict m u s =
     (let has_text = (case msg_text m of None \<Rightarrow> False | Some t \<Rightarrow> t \<noteq> []);
          text_lower = (case msg_text m of None \<Rightarrow> [] | Some t \<Rightarrow> lower t)
      in if has_text \<and> list_ex (\<lambda>link. sublist link text_lower) link_patterns
         then Some (''posting links'', Links_blocked)
         else
           (case (if has_text then List.find (\<lambda>banned_word. sublist banned_word text_lower)
                                     (banned_words s)
                  else None) of
              Some banned_word \<Rightarrow> Some (''using banned word: '' @ banned_word, Spam_blocked)
            | None \<Rightarrow>
                if is_suspicious_username u then Some (''suspicious username'', Suspicious_kicked)
                else None))"

definition handle_spam_detection :: "gateway \<Rightarrow> message option \<Rightarrow> bot \<Rightarrow> bot \<times> call list" where
  "handle_spam_detection gw upd s =
     (if \<not> anti_spam_enabled s \<or> bot_paused s then (s, [])
      else
        (case upd of
           None \<Rightarrow> (s, [])
         | Some m \<Rightarrow>
             (case from_user m of
                None \<Rightarrow> (s, [])
              | Some u \<Rightarrow>
                  if (chat_id m, user_id u) \<in> verified_users s then (s, [])
                  else
                    (case spam_verdict m u s of
                       None \<Rightarrow> (s, [])
                     | Some (reason, key) \<Rightarrow> handle_spam_violation gw m u reason key s))))"

section \<open>Commands\<close>

text \<open>
  The admin check of the commands: \<open>caller_status\<close> is the \<open>status\<close> of the
  \<open>ChatMember\<close> that \<open>get_chat_member\<close> returned, or \<open>None\<close> when that call
  raised (the handler then only logs). \<open>to_int\<close> is Python's \<open>int\<close> on a string,
  with \<open>None\<close> for \<open>ValueError\<close>.
\<close>

definition is_admin :: "string \<Rightarrow> bool" where
  "is_admin st = (st \<in> set [''administrator'', ''creator''])"

definition set_timer_command :: "(string \<Rightarrow> int option) \<Rightarrow> string option \<Rightarrow> string list \<Rightarrow> bot \<Rightarrow> bot \<times> call list" where
  "set_timer_command to_int caller_status args s =
     (case caller_status of
        None \<Rightarrow> (s, [])
      | Some st \<Rightarrow>
          if \<not> is_admin st then (s, [ReplyText AdminOnly])
          else
            (case args of
               [a] \<Rightarrow>
                 (case to_int a of
                    None \<Rightarrow> (s, [ReplyText InvalidNumber])
                  | Some new_timeout \<Rightarrow>
                      if new_timeout < 10 \<or> new_timeout > 600 then (s, [ReplyText RangeError])
                      else (s\<lparr>timeout_seconds := new_timeout\<rparr>,
                            [ReplyText (TimerUpdated new_timeout)]))
             | _ \<Rightarrow> (s, [ReplyText Usage])))"

definition pause_command :: "string option \<Rightarrow> bot \<Rightarrow> bot \<times> call list" where
  "pause_command caller_status s =
     (case caller_status of
        None \<Rightarrow> (s, [])
      | Some st \<Rightarrow>
          if \<not> is_admin st then (s, [ReplyText AdminOnly])
          else (s\<lparr>bot_paused := True\<rparr>, [ReplyText PausedNow]))"

definition resume_command :: "string option \<Rightarrow> bot \<Rightarrow> bot \<times> call list" where
  "resume_command caller_status s =
     (case caller_status of
        None \<Rightarrow> (s, [])
      | Some st \<Rightarrow>
          if \<not> is_admin st then (s, [ReplyText AdminOnly])
          else (s\<lparr>bot_paused := False\<rparr>, [ReplyText ResumedNow]))"

definition interaction_mode_command :: "string option \<Rightarrow> bot \<Rightarrow> bot \<times> call list" where
  "interaction_mode_command caller_status s =
     (case caller_status of
        None \<Rightarrow> (s, [])
      | Some st \<Rightarrow>
          if \<not> is_admin st then (s, [ReplyText AdminOnly])
          else (let s1 = s\<lparr>interaction_mode := \<not> interaction_mode s\<rparr>
                in (s1, [ReplyText (InteractionNow (interaction_mode s1))])))"

definition antispam_command :: "string option \<Rightarrow> bot \<Rightarrow> bot \<times> call list" where
  "antispam_command caller_status s =
     (case caller_status of
        None \<Rightarrow> (s, [])
      | Some st \<Rightarrow>
          if \<not> is_admin st then (s, [ReplyText AdminOnly])
          else (let s1 = s\<lparr>anti_spam_enabled := \<not> anti_spam_enabled s\<rparr>
                in (s1, [ReplyText (AntispamNow (anti_spam_enabled s1))])))"

definition rewards_command :: "string option \<Rightarrow> bot \<Rightarrow> bot \<times> call list" where
  "rewards_command caller_status s =
     (case caller_status of
        None \<Rightarrow> (s, [])
      | Some st \<Rightarrow>
          if \<not> is_admin st then (s, [ReplyText AdminOnly])
          else (let s1 = s\<lparr>reward_system_enabled := \<not> reward_system_enabled s\<rparr>
                in (s1, [ReplyText (RewardsNow (reward_system_enabled s1))])))"

text \<open>\<open>" ".join(context.args)\<close>\<close>

fun join_args :: "string list \<Rightarrow> string" where
  "join_args [] = []"
| "join_args [a] = a"
| "join_args (a # b # rest) = a @ '' '' @ join_args (b # rest)"

definition set_welcome_command :: "string option \<Rightarrow> string list \<Rightarrow> bot \<Rightarrow> bot \<times> call list" where
  "set_welcome_command caller_status args s =
     (case caller_status of
        None \<Rightarrow> (s, [])
      | Some st \<Rightarrow>
          if \<not> is_admin st then (s, [ReplyText AdminOnly])
          else if args = [] then (s, [ReplyText (WelcomeCurrent (custom_welcome s))])
          else (let new_welcome = join_args args
                in (s\<lparr>custom_welcome := new_welcome\<rparr>, [ReplyText (WelcomeUpdated new_welcome)])))"

text \<open>
  \<open>schedule_command\<close>: the only code that writes \<open>scheduled_mode\<close> and
  \<open>active_hours\<close>.
\<close>

definition schedule_command :: "(string \<Rightarrow> int option) \<Rightarrow> string option \<Rightarrow> string list \<Rightarrow> bot \<Rightarrow> bot \<times> call list" where
  "schedule_command to_int caller_status args s =
     (case caller_status of
        None \<Rightarrow> (s, [])
      | Some st \<Rightarrow>
          if \<not> is_admin st then (s, [ReplyText AdminOnly])
          else
            (case args of
               [] \<Rightarrow> (s, [ReplyText (ScheduleStatus (scheduled_mode s) (active_hours s))])
             | a # rest \<Rightarrow>
                 if lower a = ''toggle''
                 then (let s1 = s\<lparr>scheduled_mode := \<not> scheduled_mode s\<rparr>
                       in (s1, [ReplyText (ScheduledModeNow (scheduled_mode s1) (active_hours s1))]))
                 else
                   (case rest of
                      [b] \<Rightarrow>
                        (case to_int a of
                           None \<Rightarrow> (s, [ReplyText HoursInvalid])
                         | Some start_hour \<Rightarrow>
                             (case to_int b of
                                None \<Rightarrow> (s, [ReplyText HoursInvalid])
                              | Some end_hour \<Rightarrow>
                                  if 0 \<le> start_hour \<and> start_hour \<le> 23 \<and> 0 \<le> end_hour \<and> end_hour \<le> 23
                                  then (s\<lparr>active_hours := (start_hour, end_hour)\<rparr>,
                                        [ReplyText (HoursSet start_hour end_hour)])
                                  else (s, [ReplyText HoursRange])))
                    | _ \<Rightarrow> (s, []))))"

section \<open>The reward ledger's leaderboard\<close>

text \<open>
  \<open>sorted(xs, key=k, reverse=True)\<close>: CPython reverses the list, sorts it with
  its stable sort and reverses the result.
\<close>

definition sorted_reverse :: "('a \<Rightarrow> int) \<Rightarrow> 'a list \<Rightarrow> 'a list" where
  "sorted_reverse k xs = rev (sort_key k (rev xs))"

text \<open>\<open>sorted_users[:10]\<close>, the entries the loop of \<open>leaderboard_command\<close> prints.\<close>

definition leaderboard_entries :: "bot \<Rightarrow> (user_key \<times> int) list" where
  "leaderboard_entries s = take 10 (sorted_reverse snd (user_points s))"

text \<open>Each printed line has the rank, the user id of the key and the points.\<close>

definition leaderboard_command :: "bot \<Rightarrow> bot \<times> call list" where
  "leaderboard_command s =
     (if user_points s = [] then (s, [ReplyText NoPointsYet])
      else (s, [ReplyText (Leaderboard
                  (map (\<lambda>(i, (user_key, points)). (i, snd user_key, points))
                     (List.enumerate 1 (leaderboard_entries s))))]))"

section \<open>Events\<close>

text \<open>
  Everything that can happen to the bot: the handlers the application calls,
  the commands, and the parts of a timer's thread, one by one (\<open>TimerWakes\<close>,
  \<open>TimerLocks\<close>, \<open>TimerFinishes\<close>) or all that are left at once (\<open>TimerFires\<close>).
\<close>

datatype event =
    Join int int int string
  | TextMessage int "message option"
  | VideoMessage int "message option"
  | AnyMessage gateway "message option"
  | TimerFires gateway nat
  | TimerWakes nat
  | TimerLocks nat
  | TimerFinishes gateway nat
  | SetTimer "string option" "string list"
  | Pause "string option"
  | Resume "string option"
  | InteractionMode "string option"
  | Antispam "string option"
  | Rewards "string option"
  | SetWelcome "string option" "string list"
  | Schedule "string option" "string list"
  | LeaderboardCmd

fun step :: "(string \<Rightarrow> int option) \<Rightarrow> event \<Rightarrow> bot \<Rightarrow> bot \<times> call list" where
  "step to_int (Join now cid uid uname) s = handle_new_member now cid uid uname s"
| "step to_int (TextMessage now upd) s = handle_text_message now upd s"
| "step to_int (VideoMessage now upd) s = handle_video_message now upd s"
| "step to_int (AnyMessage gw upd) s = handle_spam_detection gw upd s"
| "step to_int (TimerFires gw tid) s = timer_fires gw tid s"
| "step to_int (TimerWakes tid) s = timer_wakes tid s"
| "step to_int (TimerLocks tid) s = timer_locks tid s"
| "step to_int (TimerFinishes gw tid) s = timer_finishes gw tid s"
| "step to_int (SetTimer st args) s = set_timer_command to_int st args s"
| "step to_int (Pause st) s = pause_command st s"
| "step to_int (Resume st) s = resume_command st s"
| "step to_int (InteractionMode st) s = interaction_mode_command st s"
| "step to_int (Antispam st) s = antispam_command st s"
| "step to_int (Rewards st) s = rewards_command st s"
| "step to_int (SetWelcome st args) s = set_welcome_command st args s"
| "step to_int (Schedule st args) s = schedule_command to_int st args s"
| "step to_int LeaderboardCmd s = leaderboard_command s"

fun run :: "(string \<Rightarrow> int option) \<Rightarrow> event list \<Rightarrow> bot \<Rightarrow> bot" where
  "run to_int [] s = s"
| "run to_int (e # es) s = run to_int es (fst (step to_int e s))"

section \<open>Notions used in the properties\<close>

subsection \<open>Classes of events\<close>

text \<open>
  The events that are a \<open>/settimer\<close> command, a \<open>/schedule\<close> command, and
  a join of a given key.
\<close>

fun is_set_timer :: "event \<Rightarrow> bool" where
  "is_set_timer (SetTimer st args) = True"
| "is_set_timer _ = False"

fun is_schedule :: "event \<Rightarrow> bool" where
  "is_schedule (Schedule st args) = True"
| "is_schedule _ = False"

fun is_join_of :: "user_key \<Rightarrow> event \<Rightarrow> bool" where
  "is_join_of k (Join now cid uid uname) = (k = (cid, uid))"
| "is_join_of k _ = False"

text \<open>
  The calls to the gateway made along a run of events.
\<close>

fun run_calls :: "(string \<Rightarrow> int option) \<Rightarrow> event list \<Rightarrow> bot \<Rightarrow> call list" where
  "run_calls to_int [] s = []"
| "run_calls to_int (e # es) s =
     snd (step to_int e s) @ run_calls to_int es (fst (step to_int e s))"

subsection \<open>Armed timers\<close>

text \<open>
  The key a timer was made for; the armed timers of a key, as the list of
  their identities and as a predicate on the timer store.
\<close>

definition key_of :: "py_timer \<Rightarrow> user_key" where
  "key_of t = (case t_args t of (cid, uid, uname) \<Rightarrow> (cid, uid))"

definition armed_for :: "user_key \<Rightarrow> bot \<Rightarrow> nat list" where
  "armed_for k s =
     filter (\<lambda>i. t_status (timers s ! i) = Armed \<and> key_of (timers s ! i) = k)
       [0..<length (timers s)]"

definition armed :: "user_key \<Rightarrow> py_timer list \<Rightarrow> nat \<Rightarrow> bool" where
  "armed k ts i = (i < length ts \<and> t_status (ts ! i) = Armed \<and> key_of (ts ! i) = k)"

subsection \<open>States that differ in the schedule settings\<close>

text \<open>
  \<open>with_schedule b h s\<close> is \<open>s\<close> with \<open>scheduled_mode\<close> and \<open>active_hours\<close>
  overwritten; \<open>lift_schedule\<close> does the same to the state of a handler's result.
\<close>

definition with_schedule :: "bool \<Rightarrow> int \<times> int \<Rightarrow> bot \<Rightarrow> bot" where
  "with_schedule b h s = s\<lparr>scheduled_mode := b, active_hours := h\<rparr>"

definition lift_schedule :: "bool \<Rightarrow> int \<times> int \<Rightarrow> bot \<times> call list \<Rightarrow> bot \<times> call list" where
  "lift_schedule b h r = (with_schedule b h (fst r), snd r)"

subsection \<open>Concurrent calls on one key\<close>

text \<open>
  The two handlers that consume a pending entry, as calls that may be made
  concurrently: \<open>handle_video_message\<close> on the event loop and
  \<open>_kick_user_timeout\<close> on a timer thread. Both take \<open>pending_users_lock\<close>. The
  video handler holds it for its whole body, so it is one atomic part; the
  callback has two: the block under the lock, and the rest after the lock has
  been released. An interleaving is a list of call numbers, each occurrence
  running the next part of that call; \<open>winners\<close> collects the calls whose
  locked part found the entry.
\<close>

datatype tracker_call = OnVideoPosted int message | OnTimerFire gateway int int string

fun call_key :: "tracker_call \<Rightarrow> user_key option" where
  "call_key (OnVideoPosted now m) =
     (case from_user m of None \<Rightarrow> None | Some u \<Rightarrow> Some (chat_id m, user_id u))"
| "call_key (OnTimerFire gw cid uid uname) = Some (cid, uid)"

datatype progress = NotStarted | AfterLock | Done

record interleaving =
  bot_state :: bot
  progresses :: "progress list"
  calls_made :: "call list"
  winners :: "nat list"

definition start :: "bot \<Rightarrow> tracker_call list \<Rightarrow> interleaving" where
  "start s cs =
     \<lparr>bot_state = s, progresses = replicate (length cs) NotStarted, calls_made = [], winners = []\<rparr>"

definition video_finds_entry :: "message \<Rightarrow> bot \<Rightarrow> bool" where
  "video_finds_entry m s =
     (case from_user m of None \<Rightarrow> False | Some u \<Rightarrow> pending_users s (chat_id m, user_id u) \<noteq> None)"

fun advance :: "tracker_call \<Rightarrow> progress \<Rightarrow> bot \<Rightarrow> bot \<times> progress \<times> call list \<times> bool" where
  "advance (OnVideoPosted now m) NotStarted s =
     (let (s', calls) = handle_video_message now (Some m) s
      in (s', Done, calls, video_finds_entry m s))"
| "advance (OnTimerFire gw cid uid uname) NotStarted s =
     (let (s', found) = kick_lock_section cid uid s
      in (s', if found then AfterLock else Done, [], found))"
| "advance (OnTimerFire gw cid uid uname) AfterLock s =
     (let (s', calls) = kick_after_lock gw cid uid uname s
      in (s', Done, calls, False))"
| "advance c p s = (s, p, [], False)"

definition interleave_step :: "tracker_call list \<Rightarrow> nat \<Rightarrow> interleaving \<Rightarrow> interleaving" where
  "interleave_step cs i r =
     (if i < length cs \<and> i < length (progresses r)
      then
        (let (s', p', calls, found) = advance (cs ! i) (progresses r ! i) (bot_state r)
         in r\<lparr>bot_state := s', progresses := (progresses r)[i := p'],
              calls_made := calls_made r @ calls,
              winners := winners r @ (if found then [i] else [])\<rparr>)
      else r)"

fun interleave :: "tracker_call list \<Rightarrow> nat list \<Rightarrow> interleaving \<Rightarrow> interleaving" where
  "interleave cs [] r = r"
| "interleave cs (i # sched) r = interleave cs sched (interleave_step cs i r)"

section \<open>Example inputs\<close>

text \<open>
  The plain decimal numerals among the strings \<open>int\<close> accepts.
\<close>

definition digit_val :: "char \<Rightarrow> int option" where
  "digit_val c = (let n = (of_char c :: nat) in if 48 \<le> n \<and> n \<le> 57 then Some (int n - 48) else None)"

fun digits_val :: "int \<Rightarrow> string \<Rightarrow> int option" where
  "digits_val acc [] = Some acc"
| "digits_val acc (c # cs) =
     (case digit_val c of None \<Rightarrow> None | Some d \<Rightarrow> digits_val (10 * acc + d) cs)"

definition decimal :: "string \<Rightarrow> int option" where
  "decimal t =
     (case t of
        [] \<Rightarrow> None
      | c # cs \<Rightarrow>
          if c = CHR ''-'' then (if cs = [] then None else map_option uminus (digits_val 0 cs))
          else if c = CHR ''+'' then (if cs = [] then None else digits_val 0 cs)
          else digits_val 0 (c # cs))"

text \<open>
  Gateways: one on which every call succeeds, one on which the ban raises.
\<close>

definition all_succeed :: gateway where
  "all_succeed c = True"

definition ban_fails :: gateway where
  "ban_fails c = (case c of BanChatMember cid uid \<Rightarrow> False | _ \<Rightarrow> True)"

text \<open>
  Ann (user 42 of chat 7), her messages, and the states after she has joined,
  after her video, and after she has joined again.
\<close>

definition ann :: tg_user where
  "ann = \<lparr>user_id = 42, full_name = ''Ann'', username = None\<rparr>"

definition ann_video :: message where
  "ann_video = \<lparr>chat_id = 7, message_id = 1, from_user = Some ann, msg_text = None\<rparr>"

definition ann_hello :: message where
  "ann_hello = \<lparr>chat_id = 7, message_id = 3, from_user = Some ann, msg_text = Some ''hello''\<rparr>"

definition ann_spam :: message where
  "ann_spam = \<lparr>chat_id = 7, message_id = 2, from_user = Some ann,
               msg_text = Some ''see www.example.net''\<rparr>"

definition ann_joined :: bot where
  "ann_joined = fst (handle_new_member 0 7 42 ''Ann'' (init 30))"

definition ann_verified :: bot where
  "ann_verified = fst (handle_video_message 5000000 (Some ann_video) ann_joined)"

definition ann_rejoined :: bot where
  "ann_rejoined = fst (handle_new_member 9000000 7 42 ''Ann'' ann_verified)"



text \<open>
  Ann joins; the interval of her timer passes and its thread finds the timer
  not cancelled; before the callback runs she joins again; then the callback
  of the first timer runs.
\<close>

definition stale_callback_run :: "event list" where
  "stale_callback_run =
     [Join 0 7 42 ''Ann'', TimerWakes 0, Join 30000000 7 42 ''Ann'', TimerFires all_succeed 0]"

definition after_stale_callback :: bot where
  "after_stale_callback = run decimal stale_callback_run (init 30)"

text \<open>
  A ledger filled in the order A, B, C; two timer callbacks and a video
  racing for Ann's entry.
\<close>

definition abc_ledger :: bot where
  "abc_ledger = (init 30)\<lparr>user_points :=
      add_points (7, 3) 50 (add_points (7, 2) 100 (add_points (7, 1) 100 []))\<rparr>"

definition race_calls :: "tracker_call list" where
  "race_calls = [OnTimerFire all_succeed 7 42 ''Ann'', OnVideoPosted 5000000 ann_video,
                 OnTimerFire all_succeed 7 42 ''Ann'']"

section \<open>The ledger as a dictionary\<close>

lemma map_of_add_points_same:
  "map_of (add_points k p ups) k = Some (ledger_total ups k + p)"
  by (simp add: add_points_def ledger_total_def Let_def map_of_map_entry update_conv'
        split: option.splits)

lemma map_of_add_points_other:
  "k' \<noteq> k \<Longrightarrow> map_of (add_points k p ups) k' = map_of ups k'"
  by (simp add: add_points_def Let_def map_of_map_entry update_conv')

lemma ledger_total_add_points:
  "ledger_total (add_points k p ups) k = ledger_total ups k + p"
  using map_of_add_points_same [of k p ups] by (simp add: ledger_total_def)

text \<open>A new key goes to the end of the ledger; a known key keeps its place.\<close>

lemma keys_map_entry: "map fst (AList.map_entry k f xs) = map fst xs"
  by (induction xs) auto

lemma keys_update:
  "map fst (AList.update k v xs) =
     (if k \<in> fst ` set xs then map fst xs else map fst xs @ [k])"
  by (induction xs) auto

lemma keys_add_points:
  "map fst (add_points k p ups) =
     (if k \<in> fst ` set ups then map fst ups else map fst ups @ [k])"
  by (auto simp: add_points_def Let_def keys_map_entry keys_update map_of_eq_None_iff)

section \<open>Reward tiers\<close>

text \<open>
  C5. A video from a pending user is answered with the points of its tier:
  100 when the elapsed time is at most 10 seconds, 50 when it is more than 10
  and at most 30 seconds, 25 otherwise; the points are added to the user's
  total in \<open>user_points\<close> and no other total changes. With the reward system
  disabled the answer carries no points and \<open>user_points\<close> is the same list as
  before.
\<close>

theorem video_points_awarded:
  assumes "from_user m = Some u"
    and "pending_users s (chat_id m, user_id u) = Some e"
  shows "(reward_system_enabled s \<longrightarrow>
            snd (handle_video_message now (Some m) s) =
               [SendMessage (chat_id m) (VerifiedWithPoints (full_name u) (now - join_time e)
                  (if now - join_time e \<le> 10 * 1000000 then 100
                   else if now - join_time e \<le> 30 * 1000000 then 50 else 25)
                  (ledger_total (user_points s) (chat_id m, user_id u) +
                    (if now - join_time e \<le> 10 * 1000000 then 100
                     else if now - join_time e \<le> 30 * 1000000 then 50 else 25)))]
          \<and> map_of (user_points (fst (handle_video_message now (Some m) s))) (chat_id m, user_id u) =
               Some (ledger_total (user_points s) (chat_id m, user_id u) +
                  (if now - join_time e \<le> 10 * 1000000 then 100
                   else if now - join_time e \<le> 30 * 1000000 then 50 else 25))
          \<and> (\<forall>k. k \<noteq> (chat_id m, user_id u) \<longrightarrow>
                 map_of (user_points (fst (handle_video_message now (Some m) s))) k =
                 map_of (user_points s) k))
       \<and> (\<not> reward_system_enabled s \<longrightarrow>
            snd (handle_video_message now (Some m) s) =
               [SendMessage (chat_id m) (VerifiedPlain (full_name u) (now - join_time e))]
          \<and> user_points (fst (handle_video_message now (Some m) s)) = user_points s)"
  using assms
  by (simp add: handle_video_message_def video_verify_def Let_def
        map_of_add_points_same map_of_add_points_other ledger_total_add_points)

theorem video_points_awarded_witness:
  "snd (handle_video_message 5000000 (Some ann_video) ann_joined) =
     [SendMessage 7 (VerifiedWithPoints ''Ann'' 5000000 100 100)]
   \<and> map_of (user_points (fst (handle_video_message 5000000 (Some ann_video) ann_joined))) (7, 42) =
       Some 100
   \<and> snd (handle_video_message 5000000 (Some ann_video)
         (ann_joined\<lparr>reward_system_enabled := False\<rparr>)) =
     [SendMessage 7 (VerifiedPlain ''Ann'' 5000000)]
   \<and> user_points (fst (handle_video_message 5000000 (Some ann_video)
         (ann_joined\<lparr>reward_system_enabled := False\<rparr>))) = []"
  using video_points_awarded [of ann_video ann ann_joined
          "\<lparr>timer = 0, join_time = 0, user_name = ''Ann''\<rparr>" 5000000]
    video_points_awarded [of ann_video ann "ann_joined\<lparr>reward_system_enabled := False\<rparr>"
          "\<lparr>timer = 0, join_time = 0, user_name = ''Ann''\<rparr>" 5000000]
  by (simp add: ann_video_def ann_def ann_joined_def handle_new_member_def init_def
        new_timer_def Let_def ledger_total_def)

section \<open>The leaderboard\<close>

lemma sorted_reverse_mset: "mset (sorted_reverse k xs) = mset xs"
  by (simp add: sorted_reverse_def)

lemma sorted_reverse_desc: "sorted_wrt (\<lambda>a b. k a \<ge> k b) (sorted_reverse k xs)"
proof -
  have "sorted (map k (sort_key k (rev xs)))" by simp
  then have "sorted_wrt (\<lambda>a b. k a \<le> k b) (sort_key k (rev xs))"
    by (simp add: sorted_map)
  then show ?thesis
    by (simp add: sorted_reverse_def sorted_wrt_rev)
qed

lemma sorted_reverse_stable:
  "filter (\<lambda>x. k x = p) (sorted_reverse k xs) = filter (\<lambda>x. k x = p) xs"
  by (simp add: sorted_reverse_def rev_filter [symmetric] sort_key_stable)

lemma abc_ledger_points:
  "user_points abc_ledger = [((7, 1), 100), ((7, 2), 100), ((7, 3), 50)]"
  by (simp add: abc_ledger_def add_points_def)

text \<open>
  C6. The leaderboard prints the first ten entries of a rearrangement of the
  whole ledger that is in descending order of points and keeps entries with
  equal points in the order they have in the ledger, which is the order of
  their insertion: awarding points to a new key puts it last, to a known key
  leaves the order as it is. On the ledger A:100, B:100, C:50 it prints A, B, C, also
  when C was inserted first.
\<close>

theorem leaderboard_stable_descending_top10:
  "leaderboard_entries s = take 10 (sorted_reverse snd (user_points s))
   \<and> mset (sorted_reverse snd (user_points s)) = mset (user_points s)
   \<and> sorted_wrt (\<lambda>a b. snd a \<ge> snd b) (sorted_reverse snd (user_points s))
   \<and> (\<forall>p. filter (\<lambda>x. snd x = p) (sorted_reverse snd (user_points s)) =
            filter (\<lambda>x. snd x = p) (user_points s))
   \<and> length (leaderboard_entries s) \<le> 10
   \<and> map fst (add_points k n (user_points s)) =
       (if k \<in> fst ` set (user_points s) then map fst (user_points s)
        else map fst (user_points s) @ [k])
   \<and> (user_points s \<noteq> [] \<longrightarrow>
        snd (leaderboard_command s) =
          [ReplyText (Leaderboard (map (\<lambda>(i, (user_key, points)). (i, snd user_key, points))
             (List.enumerate 1 (leaderboard_entries s))))])
   \<and> (user_points s = [(a, 100), (b, 100), (c, 50)] \<longrightarrow>
        leaderboard_entries s = [(a, 100), (b, 100), (c, 50)])
   \<and> (user_points s = [(c, 50), (a, 100), (b, 100)] \<longrightarrow>
        leaderboard_entries s = [(a, 100), (b, 100), (c, 50)])"
  by (simp add: leaderboard_entries_def leaderboard_command_def sorted_reverse_mset
        sorted_reverse_desc sorted_reverse_stable keys_add_points)
     (simp add: sorted_reverse_def)

theorem leaderboard_stable_descending_top10_witness:
  "user_points abc_ledger = [((7, 1), 100), ((7, 2), 100), ((7, 3), 50)]
   \<and> leaderboard_entries abc_ledger = [((7, 1), 100), ((7, 2), 100), ((7, 3), 50)]
   \<and> snd (leaderboard_command abc_ledger) =
        [ReplyText (Leaderboard [(1, 1, 100), (2, 2, 100), (3, 3, 50)])]"
proof -
  note top = leaderboard_stable_descending_top10 [of abc_ledger "(7, 4)" 25 "(7, 1)" "(7, 2)" "(7, 3)"]
  have entries: "leaderboard_entries abc_ledger = [((7, 1), 100), ((7, 2), 100), ((7, 3), 50)]"
    using top abc_ledger_points by blast
  have "snd (leaderboard_command abc_ledger) =
          [ReplyText (Leaderboard (map (\<lambda>(i, (user_key, points)). (i, snd user_key, points))
             (List.enumerate 1 (leaderboard_entries abc_ledger))))]"
    using top abc_ledger_points by simp
  then show ?thesis
    by (simp add: entries abc_ledger_points)
qed

section \<open>Setting the timeout\<close>

lemma length_cancel: "length (cancel i ts) = length ts"
  by (simp add: cancel_def)

lemma kick_user_frame:
  "fst (kick_user gw cid uid uname s) = s \<or>
   fst (kick_user gw cid uid uname s) =
     s\<lparr>stats := (stats s)\<lparr>users_kicked := users_kicked (stats s) + 1\<rparr>\<rparr>"
  by (simp add: kick_user_def Let_def split: prod.splits)

lemma kick_user_timeout_timeout:
  "timeout_seconds (fst (kick_user_timeout gw cid uid uname s)) = timeout_seconds s"
  using kick_user_frame [of gw cid uid uname "s\<lparr>pending_users := (pending_users s)((cid, uid) := None)\<rparr>"]
  by (auto simp: kick_user_timeout_def kick_lock_section_def kick_after_lock_def Let_def)

lemma kick_after_lock_timeout:
  "timeout_seconds (fst (kick_after_lock gw cid uid uname s)) = timeout_seconds s"
  using kick_user_frame [of gw cid uid uname s]
  by (auto simp: kick_after_lock_def)

lemma timer_parts_timeout:
  "timeout_seconds (fst (timer_wakes tid s)) = timeout_seconds s"
  "timeout_seconds (fst (timer_locks tid s)) = timeout_seconds s"
  "timeout_seconds (fst (timer_finishes gw tid s)) = timeout_seconds s"
  "timeout_seconds (fst (timer_fires gw tid s)) = timeout_seconds s"
  by (simp_all add: timer_wakes_def timer_locks_def timer_finishes_def timer_fires_def
        kick_lock_section_def kick_after_lock_timeout kick_user_timeout_timeout Let_def
        split: prod.splits)

lemma step_timeout:
  "\<not> is_set_timer ev \<Longrightarrow> timeout_seconds (fst (step to_int ev s)) = timeout_seconds s"
proof (cases ev)
  case (Join now cid uid uname)
  then show ?thesis
    by (simp add: handle_new_member_def Let_def new_timer_def)
next
  case (TextMessage now upd)
  then show ?thesis
    by (simp add: handle_text_message_def Let_def new_timer_def split: option.splits)
next
  case (VideoMessage now upd)
  then show ?thesis
    by (simp add: handle_video_message_def video_verify_def Let_def split: option.splits)
next
  case (AnyMessage gw upd)
  then show ?thesis
    by (simp add: handle_spam_detection_def handle_spam_violation_def Let_def
          split: option.splits prod.splits)
next
  case (TimerFires gw tid)
  then show ?thesis by (simp add: timer_parts_timeout)
next
  case (TimerWakes tid)
  then show ?thesis by (simp add: timer_parts_timeout)
next
  case (TimerLocks tid)
  then show ?thesis by (simp add: timer_parts_timeout)
next
  case (TimerFinishes gw tid)
  then show ?thesis by (simp add: timer_parts_timeout)
next
  case (Schedule st args)
  then show ?thesis
    by (simp add: schedule_command_def Let_def split: option.splits list.splits)
qed (simp_all add: pause_command_def resume_command_def interaction_mode_command_def
       antispam_command_def rewards_command_def set_welcome_command_def leaderboard_command_def
       Let_def split: option.splits)

lemma run_timeout:
  "list_all (\<lambda>ev. \<not> is_set_timer ev) evs \<Longrightarrow>
   timeout_seconds (run to_int evs s) = timeout_seconds s"
  by (induction evs arbitrary: s) (simp_all add: step_timeout)

lemma join_arms_timer:
  assumes "\<not> bot_paused s" "\<not> interaction_mode s"
  shows "\<exists>e. pending_users (fst (handle_new_member now cid uid uname s)) (cid, uid) = Some e
           \<and> join_time e = now
           \<and> timer e < length (timers (fst (handle_new_member now cid uid uname s)))
           \<and> timers (fst (handle_new_member now cid uid uname s)) ! timer e =
               \<lparr>t_interval = timeout_seconds s, t_args = (cid, uid, uname), t_status = Armed\<rparr>"
  using assms
  by (simp add: handle_new_member_def Let_def new_timer_def length_cancel nth_append
        split: option.splits)

text \<open>
  C4. For an admin caller and an argument that \<open>int\<close> reads as \<open>n\<close>: when
  \<open>n\<close> is below 10 or above 600 the command replies with the range error and
  the state, hence \<open>timeout_seconds\<close>, is unchanged; otherwise
  \<open>timeout_seconds\<close> becomes \<open>n\<close>, and after any later events that are not
  another \<open>/settimer\<close>, a join handled while the bot is not paused and not in
  interaction mode arms a timer whose interval is \<open>n\<close>.
\<close>

theorem set_timer_validated:
  assumes "is_admin st" and "to_int a = Some n"
  shows "(n < 10 \<or> n > 600 \<longrightarrow>
            set_timer_command to_int (Some st) [a] s = (s, [ReplyText RangeError]))
       \<and> (10 \<le> n \<and> n \<le> 600 \<longrightarrow>
            set_timer_command to_int (Some st) [a] s =
              (s\<lparr>timeout_seconds := n\<rparr>, [ReplyText (TimerUpdated n)])
          \<and> (\<forall>evs now cid uid uname.
                list_all (\<lambda>ev. \<not> is_set_timer ev) evs
                \<and> \<not> bot_paused (run to_int evs (s\<lparr>timeout_seconds := n\<rparr>))
                \<and> \<not> interaction_mode (run to_int evs (s\<lparr>timeout_seconds := n\<rparr>))
                \<longrightarrow>
                (\<exists>e. pending_users (fst (handle_new_member now cid uid uname
                          (run to_int evs (s\<lparr>timeout_seconds := n\<rparr>)))) (cid, uid) = Some e
                   \<and> timer e < length (timers (fst (handle_new_member now cid uid uname
                          (run to_int evs (s\<lparr>timeout_seconds := n\<rparr>)))))
                   \<and> timers (fst (handle_new_member now cid uid uname
                          (run to_int evs (s\<lparr>timeout_seconds := n\<rparr>)))) ! timer e =
                       \<lparr>t_interval = n, t_args = (cid, uid, uname), t_status = Armed\<rparr>)))"
proof -
  have range: "n < 10 \<or> n > 600 \<longrightarrow>
      set_timer_command to_int (Some st) [a] s = (s, [ReplyText RangeError])"
    using assms by (simp add: set_timer_command_def)
  have set: "10 \<le> n \<and> n \<le> 600 \<longrightarrow>
      set_timer_command to_int (Some st) [a] s =
        (s\<lparr>timeout_seconds := n\<rparr>, [ReplyText (TimerUpdated n)])"
    using assms by (auto simp: set_timer_command_def)
  have later: "\<exists>e. pending_users (fst (handle_new_member now cid uid uname
                          (run to_int evs (s\<lparr>timeout_seconds := n\<rparr>)))) (cid, uid) = Some e
                   \<and> timer e < length (timers (fst (handle_new_member now cid uid uname
                          (run to_int evs (s\<lparr>timeout_seconds := n\<rparr>)))))
                   \<and> timers (fst (handle_new_member now cid uid uname
                          (run to_int evs (s\<lparr>timeout_seconds := n\<rparr>)))) ! timer e =
                       \<lparr>t_interval = n, t_args = (cid, uid, uname), t_status = Armed\<rparr>"
    if "list_all (\<lambda>ev. \<not> is_set_timer ev) evs"
      and "\<not> bot_paused (run to_int evs (s\<lparr>timeout_seconds := n\<rparr>))"
      and "\<not> interaction_mode (run to_int evs (s\<lparr>timeout_seconds := n\<rparr>))"
    for evs now cid uid uname
  proof -
    have "timeout_seconds (run to_int evs (s\<lparr>timeout_seconds := n\<rparr>)) = n"
      using that(1) by (simp add: run_timeout)
    then show ?thesis
      using join_arms_timer [OF that(2) that(3), of now cid uid uname] by auto
  qed
  show ?thesis
    using range set later by blast
qed



lemma admin_is_admin: "is_admin ''administrator''"
  by (simp add: is_admin_def)

lemma decimal_5: "decimal ''5'' = Some 5"
  by (simp add: decimal_def digit_val_def)

lemma decimal_30: "decimal ''30'' = Some 30"
  by (simp add: decimal_def digit_val_def)

theorem set_timer_validated_witness:
  "set_timer_command decimal (Some ''administrator'') [''5''] (init 60) =
     (init 60, [ReplyText RangeError])
   \<and> set_timer_command decimal (Some ''administrator'') [''30''] (init 60) =
     ((init 60)\<lparr>timeout_seconds := 30\<rparr>, [ReplyText (TimerUpdated 30)])
   \<and> (\<exists>e. pending_users (fst (handle_new_member 0 7 42 ''Ann''
              (run decimal [Pause (Some ''creator''), Resume (Some ''creator'')]
                 ((init 60)\<lparr>timeout_seconds := 30\<rparr>)))) (7, 42) = Some e
          \<and> timers (fst (handle_new_member 0 7 42 ''Ann''
              (run decimal [Pause (Some ''creator''), Resume (Some ''creator'')]
                 ((init 60)\<lparr>timeout_seconds := 30\<rparr>)))) ! timer e =
              \<lparr>t_interval = 30, t_args = (7, 42, ''Ann''), t_status = Armed\<rparr>)"
proof -
  have low: "set_timer_command decimal (Some ''administrator'') [''5''] (init 60) =
     (init 60, [ReplyText RangeError])"
    using set_timer_validated [of "''administrator''" decimal "''5''" 5 "init 60"]
      admin_is_admin decimal_5 by simp
  have ok: "set_timer_command decimal (Some ''administrator'') [''30''] (init 60) =
              ((init 60)\<lparr>timeout_seconds := 30\<rparr>, [ReplyText (TimerUpdated 30)])
          \<and> (\<forall>evs now cid uid uname.
                list_all (\<lambda>ev. \<not> is_set_timer ev) evs
                \<and> \<not> bot_paused (run decimal evs ((init 60)\<lparr>timeout_seconds := 30\<rparr>))
                \<and> \<not> interaction_mode (run decimal evs ((init 60)\<lparr>timeout_seconds := 30\<rparr>))
                \<longrightarrow>
                (\<exists>e. pending_users (fst (handle_new_member now cid uid uname
                          (run decimal evs ((init 60)\<lparr>timeout_seconds := 30\<rparr>)))) (cid, uid) = Some e
                   \<and> timer e < length (timers (fst (handle_new_member now cid uid uname
                          (run decimal evs ((init 60)\<lparr>timeout_seconds := 30\<rparr>)))))
                   \<and> timers (fst (handle_new_member now cid uid uname
                          (run decimal evs ((init 60)\<lparr>timeout_seconds := 30\<rparr>)))) ! timer e =
                       \<lparr>t_interval = 30, t_args = (cid, uid, uname), t_status = Armed\<rparr>))"
    using set_timer_validated [of "''administrator''" decimal "''30''" 30 "init 60"]
      admin_is_admin decimal_30 by simp
  have quiet: "list_all (\<lambda>ev. \<not> is_set_timer ev) [Pause (Some ''creator''), Resume (Some ''creator'')]"
    by simp
  have active: "\<not> bot_paused (run decimal [Pause (Some ''creator''), Resume (Some ''creator'')]
                 ((init 60)\<lparr>timeout_seconds := 30\<rparr>))
      \<and> \<not> interaction_mode (run decimal [Pause (Some ''creator''), Resume (Some ''creator'')]
                 ((init 60)\<lparr>timeout_seconds := 30\<rparr>))"
    by (simp add: pause_command_def resume_command_def is_admin_def init_def)
  from ok quiet active
  have "\<exists>e. pending_users (fst (handle_new_member 0 7 42 ''Ann''
              (run decimal [Pause (Some ''creator''), Resume (Some ''creator'')]
                 ((init 60)\<lparr>timeout_seconds := 30\<rparr>)))) (7, 42) = Some e
          \<and> timers (fst (handle_new_member 0 7 42 ''Ann''
              (run decimal [Pause (Some ''creator''), Resume (Some ''creator'')]
                 ((init 60)\<lparr>timeout_seconds := 30\<rparr>)))) ! timer e =
              \<lparr>t_interval = 30, t_args = (7, 42, ''Ann''), t_status = Armed\<rparr>"
    by blast
  with low ok show ?thesis
    by blast
qed

section \<open>Spam classification\<close>



lemma link_verdict:
  assumes "msg_text m = Some t" "link \<in> set link_patterns" "sublist link (lower t)"
  shows "spam_verdict m u s = Some (''posting links'', Links_blocked)"
proof -
  have "link \<noteq> []" using assms(2) by (auto simp: link_patterns_def)
  then have "lower t \<noteq> []" using assms(3) by auto
  then have "t \<noteq> []" by (auto simp: lower_def)
  moreover have "list_ex (\<lambda>l. sublist l (lower t)) link_patterns"
    using assms(2,3) by (auto simp: list_ex_iff)
  ultimately show ?thesis
    using assms(1) by (simp add: spam_verdict_def)
qed









section \<open>Spam removal and pending entries\<close>

lemma ann_joined_eq:
  "ann_joined = (init 30)\<lparr>
     pending_users := [(7, 42) \<mapsto> \<lparr>timer = 0, join_time = 0, user_name = ''Ann''\<rparr>],
     stats := (stats (init 30))\<lparr>total_joins := 1\<rparr>,
     timers := [\<lparr>t_interval = 30, t_args = (7, 42, ''Ann''), t_status = Armed\<rparr>]\<rparr>"
  by (simp add: ann_joined_def handle_new_member_def init_def new_timer_def Let_def)

lemma ann_spam_verdict: "spam_verdict ann_spam ann s = Some (''posting links'', Links_blocked)"
proof -
  have "lower ''see www.example.net'' = ''see www.example.net''" by code_simp
  then have "sublist ''www.'' (lower ''see www.example.net'')"
    by (simp add: sublist_Cons_right)
  then show ?thesis
    using link_verdict [of ann_spam "''see www.example.net''" "''www.''" ann s]
    by (simp add: ann_spam_def link_patterns_def)
qed

text \<open>
  C8, as stated, fails. Ann has joined and is pending; her message with a link
  is handled as a violation and she is removed; her entry is still in
  \<open>pending_users\<close> and its timer still armed, and when the timer fires the
  removal is attempted a second time.
\<close>

theorem spam_removal_keeps_entry_counterexample:
  "BanChatMember 7 42 \<in> set (snd (handle_spam_detection all_succeed (Some ann_spam) ann_joined))
   \<and> pending_users (fst (handle_spam_detection all_succeed (Some ann_spam) ann_joined)) (7, 42) =
       Some \<lparr>timer = 0, join_time = 0, user_name = ''Ann''\<rparr>
   \<and> t_status (timers (fst (handle_spam_detection all_succeed (Some ann_spam) ann_joined)) ! 0) = Armed
   \<and> snd (timer_fires all_succeed 0
            (fst (handle_spam_detection all_succeed (Some ann_spam) ann_joined))) =
       [BanChatMember 7 42, UnbanChatMember 7 42, SendMessage 7 (KickNotice ''Ann'' 30)]"
proof -
  have sp: "handle_spam_detection all_succeed (Some ann_spam) ann_joined =
      (ann_joined\<lparr>stats := stats_incr Links_blocked (stats ann_joined)\<rparr>,
       [DeleteMessage 7 2, BanChatMember 7 42, UnbanChatMember 7 42,
        SendMessage 7 (Warning ''Ann'' ''posting links'')])"
  proof -
    have "anti_spam_enabled ann_joined" "\<not> bot_paused ann_joined"
      "from_user ann_spam = Some ann" "(chat_id ann_spam, user_id ann) \<notin> verified_users ann_joined"
      by (simp_all add: ann_joined_eq init_def ann_spam_def)
    then have "handle_spam_detection all_succeed (Some ann_spam) ann_joined =
        handle_spam_violation all_succeed ann_spam ann ''posting links'' Links_blocked ann_joined"
      by (simp add: handle_spam_detection_def ann_spam_verdict)
    then show ?thesis
      by (simp add: handle_spam_violation_def Let_def all_succeed_def ann_spam_def ann_def)
  qed
  show ?thesis
    unfolding sp
    by (simp add: ann_joined_eq init_def timer_fires_def kick_user_timeout_def
          kick_lock_section_def kick_after_lock_def kick_user_def all_succeed_def Let_def)
qed

lemma spam_detection_frame:
  "pending_users (fst (handle_spam_detection gw upd s)) = pending_users s"
  "timers (fst (handle_spam_detection gw upd s)) = timers s"
  "verified_users (fst (handle_spam_detection gw upd s)) = verified_users s"
  by (simp_all add: handle_spam_detection_def handle_spam_violation_def Let_def
        split: option.splits prod.splits)

lemma attempt_first: "\<exists>rest. fst (attempt gw (c # cs)) = c # rest"
  by (simp add: Let_def split: prod.splits)

lemma stale_timer_fires:
  assumes "pending_users s (cid, uid) = Some e" and "(cid, uid) \<notin> verified_users s"
    and "tid < length (timers s)"
    and "timers s ! tid = \<lparr>t_interval = d, t_args = (cid, uid, uname), t_status = Armed\<rparr>"
  shows "(\<exists>rest. snd (timer_fires gw tid s) = BanChatMember cid uid # rest)
       \<and> pending_users (fst (timer_fires gw tid s)) (cid, uid) = None"
  using assms attempt_first [of gw "BanChatMember cid uid"
      "[UnbanChatMember cid uid, SendMessage cid (KickNotice uname (timeout_seconds s))]"]
  by (auto simp: timer_fires_def kick_user_timeout_def kick_lock_section_def kick_after_lock_def
        kick_user_def Let_def split: prod.splits)

text \<open>
  C8, amended. Spam handling never touches \<open>pending_users\<close> or the timers: a
  pending entry of the removed sender stays as it was, with its timer. When
  that timer, still armed, later fires for the still unverified key, the
  callback removes the entry and attempts the removal again.
\<close>

theorem spam_leaves_pending_and_timers:
  "pending_users (fst (handle_spam_detection gw upd s)) = pending_users s
   \<and> timers (fst (handle_spam_detection gw upd s)) = timers s
   \<and> (pending_users s (cid, uid) = Some e \<and> (cid, uid) \<notin> verified_users s
        \<and> timer e < length (timers s)
        \<and> timers s ! timer e = \<lparr>t_interval = d, t_args = (cid, uid, uname), t_status = Armed\<rparr>
      \<longrightarrow>
        (\<exists>rest. snd (timer_fires gw2 (timer e) (fst (handle_spam_detection gw upd s))) =
                  BanChatMember cid uid # rest)
        \<and> pending_users (fst (timer_fires gw2 (timer e) (fst (handle_spam_detection gw upd s))))
             (cid, uid) = None)"
  using stale_timer_fires [of "fst (handle_spam_detection gw upd s)" cid uid e "timer e" d uname gw2]
  by (simp add: spam_detection_frame)

theorem spam_leaves_pending_and_timers_witness:
  "pending_users (fst (handle_spam_detection all_succeed (Some ann_spam) ann_joined)) (7, 42) =
       Some \<lparr>timer = 0, join_time = 0, user_name = ''Ann''\<rparr>
   \<and> timers (fst (handle_spam_detection all_succeed (Some ann_spam) ann_joined)) =
       [\<lparr>t_interval = 30, t_args = (7, 42, ''Ann''), t_status = Armed\<rparr>]
   \<and> (\<exists>rest. snd (timer_fires all_succeed 0
                 (fst (handle_spam_detection all_succeed (Some ann_spam) ann_joined))) =
               BanChatMember 7 42 # rest)"
  using spam_leaves_pending_and_timers [of all_succeed "Some ann_spam" ann_joined 7 42
      "\<lparr>timer = 0, join_time = 0, user_name = ''Ann''\<rparr>" 30 "''Ann''" all_succeed]
  by (simp add: ann_joined_eq init_def)

section \<open>A removal that fails\<close>

text \<open>
  C9, as stated, fails. Ann's timer callback runs and the ban raises: her entry
  is gone, and \<open>users_kicked\<close> has not been incremented.
\<close>

theorem failed_kick_not_counted_counterexample:
  "pending_users ann_joined (7, 42) \<noteq> None
   \<and> \<not> ban_fails (BanChatMember 7 42)
   \<and> snd (kick_user_timeout ban_fails 7 42 ''Ann'' ann_joined) = [BanChatMember 7 42]
   \<and> pending_users (fst (kick_user_timeout ban_fails 7 42 ''Ann'' ann_joined)) (7, 42) = None
   \<and> users_kicked (stats (fst (kick_user_timeout ban_fails 7 42 ''Ann'' ann_joined))) \<noteq>
       users_kicked (stats ann_joined) + 1"
  by (simp add: ann_joined_eq init_def kick_user_timeout_def
        kick_lock_section_def kick_after_lock_def kick_user_def ban_fails_def Let_def)

text \<open>
  C9, amended. When the callback finds the entry of an unverified key and the
  ban raises, the only change of the state is that the entry is removed:
  nothing is rolled back and no counter moves. Whatever the gateway does,
  \<open>users_kicked\<close> changes only if the ban has succeeded.
\<close>

theorem failed_kick_keeps_removal:
  assumes "pending_users s (cid, uid) = Some e" and "(cid, uid) \<notin> verified_users s"
    and "\<not> gw (BanChatMember cid uid)"
  shows "kick_user_timeout gw cid uid uname s =
           (s\<lparr>pending_users := (pending_users s)((cid, uid) := None)\<rparr>, [BanChatMember cid uid])
       \<and> (users_kicked (stats (fst (kick_user_timeout gw2 cid uid uname s))) \<noteq>
            users_kicked (stats s) \<longrightarrow> gw2 (BanChatMember cid uid))"
  using assms
  by (simp add: kick_user_timeout_def kick_lock_section_def kick_after_lock_def kick_user_def Let_def)

theorem failed_kick_keeps_removal_witness:
  "kick_user_timeout ban_fails 7 42 ''Ann'' ann_joined =
     (ann_joined\<lparr>pending_users := (pending_users ann_joined)((7, 42) := None)\<rparr>,
      [BanChatMember 7 42])
   \<and> users_kicked (stats (fst (kick_user_timeout ban_fails 7 42 ''Ann'' ann_joined))) = 0"
  using failed_kick_keeps_removal [of ann_joined 7 42
      "\<lparr>timer = 0, join_time = 0, user_name = ''Ann''\<rparr>" ban_fails "''Ann''" ban_fails]
  by (simp add: ann_joined_eq init_def ban_fails_def)

section \<open>Verified keys\<close>

lemma kick_user_fields:
  "pending_users (fst (kick_user gw cid uid uname s)) = pending_users s"
  "timers (fst (kick_user gw cid uid uname s)) = timers s"
  "verified_users (fst (kick_user gw cid uid uname s)) = verified_users s"
  by (simp_all add: kick_user_def Let_def split: prod.splits)

lemma kick_user_timeout_fields:
  "pending_users (fst (kick_user_timeout gw cid uid uname s)) = (pending_users s)((cid, uid) := None)"
  "timers (fst (kick_user_timeout gw cid uid uname s)) = timers s"
  "verified_users (fst (kick_user_timeout gw cid uid uname s)) = verified_users s"
  by (auto simp: kick_user_timeout_def kick_lock_section_def kick_after_lock_def Let_def
        kick_user_fields)

lemma kick_after_lock_fields:
  "pending_users (fst (kick_after_lock gw cid uid uname s)) = pending_users s"
  "verified_users (fst (kick_after_lock gw cid uid uname s)) = verified_users s"
  "users_verified (stats (fst (kick_after_lock gw cid uid uname s))) = users_verified (stats s)"
  "timers (fst (kick_after_lock gw cid uid uname s)) = timers s"
  by (simp_all add: kick_after_lock_def kick_user_def Let_def split: prod.splits)

lemma timer_parts_verified:
  "verified_users (fst (timer_wakes tid s)) = verified_users s"
  "verified_users (fst (timer_locks tid s)) = verified_users s"
  "verified_users (fst (timer_finishes gw tid s)) = verified_users s"
  "verified_users (fst (timer_fires gw tid s)) = verified_users s"
  by (simp_all add: timer_wakes_def timer_locks_def timer_finishes_def timer_fires_def
        kick_lock_section_def kick_after_lock_fields kick_user_timeout_fields Let_def
        split: prod.splits)

text \<open>The thread of a timer only ever deletes entries.\<close>

lemma timer_parts_pending:
  assumes "pending_users s k = None"
  shows "pending_users (fst (timer_wakes tid s)) k = None"
    and "pending_users (fst (timer_locks tid s)) k = None"
    and "pending_users (fst (timer_finishes gw tid s)) k = None"
    and "pending_users (fst (timer_fires gw tid s)) k = None"
  using assms
  by (simp_all add: timer_wakes_def timer_locks_def timer_finishes_def timer_fires_def
        kick_lock_section_def kick_after_lock_fields kick_user_timeout_fields Let_def
        split: prod.splits)

lemma step_verified_mono:
  assumes "k \<in> verified_users s"
  shows "k \<in> verified_users (fst (step to_int ev s))"
proof (cases ev)
  case (Join now cid uid uname)
  then show ?thesis
    using assms by (simp add: handle_new_member_def Let_def new_timer_def)
next
  case (TextMessage now upd)
  then show ?thesis
    using assms by (simp add: handle_text_message_def Let_def new_timer_def split: option.splits)
next
  case (VideoMessage now upd)
  then show ?thesis
    using assms by (simp add: handle_video_message_def video_verify_def Let_def split: option.splits)
next
  case (AnyMessage gw upd)
  then show ?thesis
    using assms by (simp add: handle_spam_detection_def handle_spam_violation_def Let_def
          split: option.splits prod.splits)
next
  case (TimerFires gw tid)
  then show ?thesis using assms by (simp add: timer_parts_verified)
next
  case (TimerWakes tid)
  then show ?thesis using assms by (simp add: timer_parts_verified)
next
  case (TimerLocks tid)
  then show ?thesis using assms by (simp add: timer_parts_verified)
next
  case (TimerFinishes gw tid)
  then show ?thesis using assms by (simp add: timer_parts_verified)
next
  case (SetTimer st args)
  then show ?thesis
    using assms by (simp add: set_timer_command_def split: option.splits list.splits)
next
  case (Schedule st args)
  then show ?thesis
    using assms by (simp add: schedule_command_def Let_def split: option.splits list.splits)
qed (use assms in \<open>simp_all add: pause_command_def resume_command_def interaction_mode_command_def
       antispam_command_def rewards_command_def set_welcome_command_def leaderboard_command_def
       Let_def split: option.splits\<close>)

lemma run_verified_mono: "k \<in> verified_users s \<Longrightarrow> k \<in> verified_users (run to_int evs s)"
  by (induction evs arbitrary: s) (simp_all add: step_verified_mono)

text \<open>No event other than a join of the key gives a verified key a new entry.\<close>

lemma step_no_new_entry:
  assumes "k \<in> verified_users s" "\<not> is_join_of k ev" "pending_users s k = None"
  shows "pending_users (fst (step to_int ev s)) k = None"
proof (cases ev)
  case (Join now cid uid uname)
  then show ?thesis
    using assms by (auto simp: handle_new_member_def Let_def new_timer_def)
next
  case (TextMessage now upd)
  then show ?thesis
    using assms by (auto simp: handle_text_message_def Let_def new_timer_def split: option.splits)
next
  case (VideoMessage now upd)
  then show ?thesis
    using assms by (simp add: handle_video_message_def video_verify_def Let_def split: option.splits)
next
  case (AnyMessage gw upd)
  then show ?thesis
    using assms by (simp add: handle_spam_detection_def handle_spam_violation_def Let_def
          split: option.splits prod.splits)
next
  case (TimerFires gw tid)
  then show ?thesis using assms by (simp add: timer_parts_pending)
next
  case (TimerWakes tid)
  then show ?thesis using assms by (simp add: timer_parts_pending)
next
  case (TimerLocks tid)
  then show ?thesis using assms by (simp add: timer_parts_pending)
next
  case (TimerFinishes gw tid)
  then show ?thesis using assms by (simp add: timer_parts_pending)
next
  case (SetTimer st args)
  then show ?thesis
    using assms by (simp add: set_timer_command_def split: option.splits list.splits)
next
  case (Schedule st args)
  then show ?thesis
    using assms by (simp add: schedule_command_def Let_def split: option.splits list.splits)
qed (use assms in \<open>simp_all add: pause_command_def resume_command_def interaction_mode_command_def
       antispam_command_def rewards_command_def set_welcome_command_def leaderboard_command_def
       Let_def split: option.splits\<close>)

lemma set_armed_for: "set (armed_for k s) = {i. armed k (timers s) i}"
  by (auto simp: armed_for_def armed_def)

lemma armed_cancel:
  "armed k (cancel j ts) i = (armed k ts i \<and> i \<noteq> j)"
  by (cases "i = j") (auto simp: armed_def cancel_def key_of_def)

lemma armed_status:
  "st \<noteq> Armed \<Longrightarrow>
   armed k (ts[j := (ts ! j)\<lparr>t_status := st\<rparr>]) i = (armed k ts i \<and> i \<noteq> j)"
  by (cases "i = j") (auto simp: armed_def key_of_def)

text \<open>The thread of a timer arms no timer.\<close>

lemma timer_parts_armed:
  "armed k (timers (fst (timer_wakes tid s))) i \<Longrightarrow> armed k (timers s) i"
  "armed k (timers (fst (timer_locks tid s))) i \<Longrightarrow> armed k (timers s) i"
  "armed k (timers (fst (timer_finishes gw tid s))) i \<Longrightarrow> armed k (timers s) i"
  "armed k (timers (fst (timer_fires gw tid s))) i \<Longrightarrow> armed k (timers s) i"
  by (auto simp: timer_wakes_def timer_locks_def timer_finishes_def timer_fires_def
        kick_lock_section_def kick_after_lock_fields kick_user_timeout_fields armed_status Let_def
        split: prod.splits if_splits)

lemma armed_new:
  "armed k (ts @ [\<lparr>t_interval = d, t_args = (cid, uid, uname), t_status = Armed\<rparr>]) i =
     (armed k ts i \<or> (i = length ts \<and> k = (cid, uid)))"
  by (auto simp: armed_def nth_append key_of_def)

lemma step_no_new_timer:
  assumes "k \<in> verified_users s" "\<not> is_join_of k ev"
  shows "set (armed_for k (fst (step to_int ev s))) \<subseteq> set (armed_for k s)"
proof (cases ev)
  case (Join now cid uid uname)
  then show ?thesis
    using assms
    by (auto simp: set_armed_for handle_new_member_def Let_def new_timer_def armed_new
          armed_cancel split: option.splits)
next
  case (TextMessage now upd)
  then show ?thesis
    using assms
    by (auto simp: set_armed_for handle_text_message_def Let_def new_timer_def armed_new
          split: option.splits)
next
  case (VideoMessage now upd)
  then show ?thesis
    using assms
    by (auto simp: set_armed_for handle_video_message_def video_verify_def Let_def armed_cancel
          split: option.splits)
next
  case (AnyMessage gw upd)
  then show ?thesis
    by (simp add: armed_for_def spam_detection_frame)
next
  case (TimerFires gw tid)
  then show ?thesis by (auto simp: set_armed_for dest: timer_parts_armed)
next
  case (TimerWakes tid)
  then show ?thesis by (auto simp: set_armed_for dest: timer_parts_armed)
next
  case (TimerLocks tid)
  then show ?thesis by (auto simp: set_armed_for dest: timer_parts_armed)
next
  case (TimerFinishes gw tid)
  then show ?thesis by (auto simp: set_armed_for dest: timer_parts_armed)
next
  case (SetTimer st args)
  then show ?thesis
    by (simp add: armed_for_def set_timer_command_def split: option.splits list.splits)
next
  case (Schedule st args)
  then show ?thesis
    by (simp add: armed_for_def schedule_command_def Let_def split: option.splits list.splits)
qed (simp_all add: armed_for_def pause_command_def resume_command_def interaction_mode_command_def
       antispam_command_def rewards_command_def set_welcome_command_def leaderboard_command_def
       Let_def split: option.splits)

lemma ann_verified_fields:
  "verified_users ann_verified = {(7, 42)}"
  "pending_users ann_verified = Map.empty"
  "timers ann_verified = [\<lparr>t_interval = 30, t_args = (7, 42, ''Ann''), t_status = Cancelled\<rparr>]"
  "bot_paused ann_verified = False" "interaction_mode ann_verified = False"
  "timeout_seconds ann_verified = 30"
  by (simp_all add: ann_verified_def handle_video_message_def video_verify_def ann_video_def
        ann_def ann_joined_eq init_def cancel_def Let_def)

text \<open>
  C2, as stated, fails. Ann joined and posted her video, so her key is verified,
  has no entry and no armed timer; when she joins again she gets a new entry
  and a new armed timer.
\<close>

theorem verified_rejoin_rearmed_counterexample:
  "(7, 42) \<in> verified_users ann_verified
   \<and> pending_users ann_verified (7, 42) = None
   \<and> armed_for (7, 42) ann_verified = []
   \<and> pending_users (fst (handle_new_member 9000000 7 42 ''Ann'' ann_verified)) (7, 42) =
       Some \<lparr>timer = 1, join_time = 9000000, user_name = ''Ann''\<rparr>
   \<and> timers (fst (handle_new_member 9000000 7 42 ''Ann'' ann_verified)) ! 1 =
       \<lparr>t_interval = 30, t_args = (7, 42, ''Ann''), t_status = Armed\<rparr>
   \<and> armed_for (7, 42) (fst (handle_new_member 9000000 7 42 ''Ann'' ann_verified)) = [1]"
  by (simp add: ann_verified_fields handle_new_member_def new_timer_def Let_def armed_for_def
        key_of_def)

text \<open>
  C2, amended. A verified key stays verified. No event other than a join of
  that key gives it a pending entry or an armed timer it did not have;
  \<open>handle_text_message\<close> does nothing for it. A join of the key, with the bot
  not paused and interaction mode off, does create an entry with a timer armed
  for the current timeout. When the callback of such a timer runs it removes
  the entry and returns: no call to the gateway, no counter.
\<close>

theorem verified_key_rearmed_only_by_join:
  assumes "(cid, uid) \<in> verified_users s"
  shows "(cid, uid) \<in> verified_users (run to_int evs s)
       \<and> (\<not> is_join_of (cid, uid) ev \<longrightarrow>
            (pending_users s (cid, uid) = None \<longrightarrow>
               pending_users (fst (step to_int ev s)) (cid, uid) = None)
          \<and> set (armed_for (cid, uid) (fst (step to_int ev s))) \<subseteq> set (armed_for (cid, uid) s))
       \<and> (from_user m = Some u \<and> chat_id m = cid \<and> user_id u = uid \<longrightarrow>
            handle_text_message now (Some m) s = (s, []))
       \<and> (\<not> bot_paused s \<and> \<not> interaction_mode s \<longrightarrow>
            (\<exists>e. pending_users (fst (handle_new_member now cid uid uname s)) (cid, uid) = Some e
               \<and> timer e < length (timers (fst (handle_new_member now cid uid uname s)))
               \<and> timers (fst (handle_new_member now cid uid uname s)) ! timer e =
                   \<lparr>t_interval = timeout_seconds s, t_args = (cid, uid, uname), t_status = Armed\<rparr>))
       \<and> (pending_users s (cid, uid) \<noteq> None \<longrightarrow>
            kick_user_timeout gw cid uid uname s =
              (s\<lparr>pending_users := (pending_users s)((cid, uid) := None)\<rparr>, []))"
proof -
  have stays: "(cid, uid) \<in> verified_users (run to_int evs s)"
    using assms by (rule run_verified_mono)
  have others: "\<not> is_join_of (cid, uid) ev \<longrightarrow>
            (pending_users s (cid, uid) = None \<longrightarrow>
               pending_users (fst (step to_int ev s)) (cid, uid) = None)
          \<and> set (armed_for (cid, uid) (fst (step to_int ev s))) \<subseteq> set (armed_for (cid, uid) s)"
    using step_no_new_entry [OF assms, of ev to_int] step_no_new_timer [OF assms, of ev to_int]
    by blast
  have texts: "from_user m = Some u \<and> chat_id m = cid \<and> user_id u = uid \<longrightarrow>
            handle_text_message now (Some m) s = (s, [])"
    using assms by (auto simp: handle_text_message_def Let_def)
  have rejoin: "\<not> bot_paused s \<and> \<not> interaction_mode s \<longrightarrow>
            (\<exists>e. pending_users (fst (handle_new_member now cid uid uname s)) (cid, uid) = Some e
               \<and> timer e < length (timers (fst (handle_new_member now cid uid uname s)))
               \<and> timers (fst (handle_new_member now cid uid uname s)) ! timer e =
                   \<lparr>t_interval = timeout_seconds s, t_args = (cid, uid, uname), t_status = Armed\<rparr>)"
    using join_arms_timer [of s now cid uid uname] by blast
  have fire: "pending_users s (cid, uid) \<noteq> None \<longrightarrow>
            kick_user_timeout gw cid uid uname s =
              (s\<lparr>pending_users := (pending_users s)((cid, uid) := None)\<rparr>, [])"
    using assms
    by (simp add: kick_user_timeout_def kick_lock_section_def kick_after_lock_def Let_def)
  show ?thesis
    using stays others texts rejoin fire by blast
qed

lemma ann_rejoined_pending:
  "pending_users ann_rejoined (7, 42) = Some \<lparr>timer = 1, join_time = 9000000, user_name = ''Ann''\<rparr>"
  "(7, 42) \<in> verified_users ann_rejoined"
  by (simp_all add: ann_rejoined_def ann_verified_fields handle_new_member_def new_timer_def Let_def)

theorem verified_key_rearmed_only_by_join_witness:
  "(7, 42) \<in> verified_users ann_verified
   \<and> (7, 42) \<in> verified_users (run decimal [Join 9000000 7 42 ''Ann''] ann_verified)
   \<and> handle_text_message 6000000 (Some ann_spam) ann_verified = (ann_verified, [])
   \<and> pending_users ann_rejoined (7, 42) \<noteq> None
   \<and> snd (kick_user_timeout all_succeed 7 42 ''Ann'' ann_rejoined) = []
   \<and> pending_users (fst (kick_user_timeout all_succeed 7 42 ''Ann'' ann_rejoined)) (7, 42) = None"
proof -
  have v: "(7, 42) \<in> verified_users ann_verified"
    by (simp add: ann_verified_fields)
  have m: "from_user ann_spam = Some ann \<and> chat_id ann_spam = 7 \<and> user_id ann = 42"
    by (simp add: ann_spam_def ann_def)
  note a = verified_key_rearmed_only_by_join [OF v, of decimal "[Join 9000000 7 42 ''Ann'']"
      "Pause None" ann_spam ann 6000000 "''Ann''" all_succeed]
  note b = verified_key_rearmed_only_by_join [OF ann_rejoined_pending(2), of decimal "[]"
      "Pause None" ann_spam ann 6000000 "''Ann''" all_succeed]
  show ?thesis
    using v m a b ann_rejoined_pending(1) by simp
qed

section \<open>The schedule settings\<close>

lemma join_inert:
  "handle_new_member now cid uid uname (with_schedule b h s) =
     lift_schedule b h (handle_new_member now cid uid uname s)"
  by (simp add: handle_new_member_def with_schedule_def lift_schedule_def Let_def new_timer_def
        split: option.splits)

lemma text_inert:
  "handle_text_message now upd (with_schedule b h s) =
     lift_schedule b h (handle_text_message now upd s)"
  by (simp add: handle_text_message_def with_schedule_def lift_schedule_def Let_def new_timer_def
        split: option.splits)

lemma video_inert:
  "handle_video_message now upd (with_schedule b h s) =
     lift_schedule b h (handle_video_message now upd s)"
  by (simp add: handle_video_message_def video_verify_def with_schedule_def lift_schedule_def
        Let_def split: option.splits)

lemma kick_user_inert:
  "kick_user gw cid uid uname (with_schedule b h s) =
     lift_schedule b h (kick_user gw cid uid uname s)"
  by (simp add: kick_user_def with_schedule_def lift_schedule_def Let_def split: prod.splits)

lemma with_schedule_fields:
  "pending_users (with_schedule b h s) = pending_users s"
  "verified_users (with_schedule b h s) = verified_users s"
  "timers (with_schedule b h s) = timers s"
  "(with_schedule b h s)\<lparr>pending_users := p\<rparr> = with_schedule b h (s\<lparr>pending_users := p\<rparr>)"
  "(with_schedule b h s)\<lparr>timers := ts\<rparr> = with_schedule b h (s\<lparr>timers := ts\<rparr>)"
  by (simp_all add: with_schedule_def)

lemma kick_timeout_inert:
  "kick_user_timeout gw cid uid uname (with_schedule b h s) =
     lift_schedule b h (kick_user_timeout gw cid uid uname s)"
  by (simp add: kick_user_timeout_def kick_lock_section_def kick_after_lock_def
        with_schedule_fields kick_user_inert Let_def)
     (simp add: lift_schedule_def)

lemma kick_after_lock_inert:
  "kick_after_lock gw cid uid uname (with_schedule b h s) =
     lift_schedule b h (kick_after_lock gw cid uid uname s)"
  by (simp add: kick_after_lock_def with_schedule_fields kick_user_inert)
     (simp add: lift_schedule_def)

lemma wakes_inert:
  "timer_wakes tid (with_schedule b h s) = lift_schedule b h (timer_wakes tid s)"
  by (simp add: timer_wakes_def with_schedule_fields lift_schedule_def)

lemma locks_inert:
  "timer_locks tid (with_schedule b h s) = lift_schedule b h (timer_locks tid s)"
  by (simp add: timer_locks_def kick_lock_section_def with_schedule_fields lift_schedule_def
        Let_def split: prod.splits)

lemma finishes_inert:
  "timer_finishes gw tid (with_schedule b h s) = lift_schedule b h (timer_finishes gw tid s)"
  by (simp add: timer_finishes_def with_schedule_fields kick_after_lock_inert Let_def
        split: prod.splits)
     (simp add: lift_schedule_def)

lemma fires_inert:
  "timer_fires gw tid (with_schedule b h s) = lift_schedule b h (timer_fires gw tid s)"
  by (auto simp: timer_fires_def with_schedule_fields kick_timeout_inert finishes_inert Let_def
        split: prod.splits)

lemma spam_verdict_inert: "spam_verdict m u (with_schedule b h s) = spam_verdict m u s"
  by (simp add: spam_verdict_def with_schedule_def Let_def)

lemma spam_inert:
  "handle_spam_detection gw upd (with_schedule b h s) =
     lift_schedule b h (handle_spam_detection gw upd s)"
  by (simp add: handle_spam_detection_def spam_verdict_inert handle_spam_violation_def
        lift_schedule_def Let_def split: option.splits prod.splits)
     (simp add: with_schedule_def)

lemma step_inert:
  assumes "\<not> is_schedule ev"
  shows "step to_int ev (with_schedule b h s) = lift_schedule b h (step to_int ev s)"
proof (cases ev)
  case (Join now cid uid uname)
  then show ?thesis by (simp add: join_inert)
next
  case (TextMessage now upd)
  then show ?thesis by (simp add: text_inert)
next
  case (VideoMessage now upd)
  then show ?thesis by (simp add: video_inert)
next
  case (AnyMessage gw upd)
  then show ?thesis by (simp add: spam_inert)
next
  case (TimerFires gw tid)
  then show ?thesis by (simp add: fires_inert)
next
  case (TimerWakes tid)
  then show ?thesis by (simp add: wakes_inert)
next
  case (TimerLocks tid)
  then show ?thesis by (simp add: locks_inert)
next
  case (TimerFinishes gw tid)
  then show ?thesis by (simp add: finishes_inert)
next
  case (SetTimer st args)
  then show ?thesis
    by (simp add: set_timer_command_def with_schedule_def lift_schedule_def
          split: option.splits list.splits)
next
  case (Schedule st args)
  then show ?thesis using assms by simp
next
  case LeaderboardCmd
  then show ?thesis
    by (simp add: leaderboard_command_def leaderboard_entries_def with_schedule_def
          lift_schedule_def)
qed (simp_all add: pause_command_def resume_command_def interaction_mode_command_def
     antispam_command_def rewards_command_def set_welcome_command_def with_schedule_def
     lift_schedule_def Let_def split: option.splits)

lemma run_inert:
  "list_all (\<lambda>ev. \<not> is_schedule ev) evs \<Longrightarrow>
   run to_int evs (with_schedule b h s) = with_schedule b h (run to_int evs s)
   \<and> run_calls to_int evs (with_schedule b h s) = run_calls to_int evs s"
  by (induction evs arbitrary: s) (simp_all add: step_inert lift_schedule_def)

lemma lower_toggle: "lower ''toggle'' = ''toggle''"
  by code_simp

lemma schedule_toggle:
  "is_admin st \<Longrightarrow>
   schedule_command to_int (Some st) [''toggle''] s =
     (s\<lparr>scheduled_mode := \<not> scheduled_mode s\<rparr>,
      [ReplyText (ScheduledModeNow (\<not> scheduled_mode s) (active_hours s))])"
  by (simp add: schedule_command_def lower_toggle Let_def)

text \<open>
  C10. Two states that differ only in \<open>scheduled_mode\<close> and \<open>active_hours\<close>
  are taken by the join handler, the text handler, the video handler, the
  timer callback, a firing timer and the spam handler to states that again
  differ only there, with the same calls to the gateway; so are whole runs of
  events without a \<open>/schedule\<close> command. The command itself, from an admin,
  flips \<open>scheduled_mode\<close> and echoes the settings.
\<close>

theorem schedule_settings_inert:
  "handle_new_member now cid uid uname (with_schedule b h s) =
     lift_schedule b h (handle_new_member now cid uid uname s)
   \<and> handle_text_message now upd (with_schedule b h s) =
     lift_schedule b h (handle_text_message now upd s)
   \<and> handle_video_message now upd (with_schedule b h s) =
     lift_schedule b h (handle_video_message now upd s)
   \<and> kick_user_timeout gw cid uid uname (with_schedule b h s) =
     lift_schedule b h (kick_user_timeout gw cid uid uname s)
   \<and> timer_fires gw tid (with_schedule b h s) = lift_schedule b h (timer_fires gw tid s)
   \<and> handle_spam_detection gw upd (with_schedule b h s) =
     lift_schedule b h (handle_spam_detection gw upd s)
   \<and> (list_all (\<lambda>ev. \<not> is_schedule ev) evs \<longrightarrow>
        run to_int evs (with_schedule b h s) = with_schedule b h (run to_int evs s)
        \<and> run_calls to_int evs (with_schedule b h s) = run_calls to_int evs s)
   \<and> (is_admin st \<longrightarrow>
        schedule_command to_int (Some st) [''toggle''] s =
          (s\<lparr>scheduled_mode := \<not> scheduled_mode s\<rparr>,
           [ReplyText (ScheduledModeNow (\<not> scheduled_mode s) (active_hours s))]))"
  using run_inert [of evs to_int b h s] schedule_toggle [of st to_int s]
  by (simp add: join_inert text_inert video_inert kick_timeout_inert fires_inert spam_inert)

theorem schedule_settings_inert_witness:
  "handle_new_member 0 7 42 ''Ann'' (with_schedule True (23, 1) (init 30)) =
     (with_schedule True (23, 1) ann_joined,
      [SendMessage 7 (CustomWelcome (custom_welcome (init 30)) ''Ann'' 30)])
   \<and> run decimal [Join 0 7 42 ''Ann'', VideoMessage 5000000 (Some ann_video)]
        (with_schedule True (23, 1) (init 30)) =
      with_schedule True (23, 1)
        (run decimal [Join 0 7 42 ''Ann'', VideoMessage 5000000 (Some ann_video)] (init 30))
   \<and> scheduled_mode (fst (schedule_command decimal (Some ''administrator'') [''toggle''] (init 30)))"
proof -
  note inert = schedule_settings_inert [of 0 7 42 "''Ann''" True "(23, 1)" "init 30" None
      all_succeed 0 "[Join 0 7 42 ''Ann'', VideoMessage 5000000 (Some ann_video)]" decimal
      "''administrator''"]
  have evs: "list_all (\<lambda>ev. \<not> is_schedule ev)
      [Join 0 7 42 ''Ann'', VideoMessage 5000000 (Some ann_video)]"
    by simp
  have j: "handle_new_member 0 7 42 ''Ann'' (init 30) =
      (ann_joined, [SendMessage 7 (CustomWelcome (custom_welcome (init 30)) ''Ann'' 30)])"
    by (simp add: ann_joined_def handle_new_member_def init_def new_timer_def Let_def)
  have one: "handle_new_member 0 7 42 ''Ann'' (with_schedule True (23, 1) (init 30)) =
     (with_schedule True (23, 1) ann_joined,
      [SendMessage 7 (CustomWelcome (custom_welcome (init 30)) ''Ann'' 30)])"
    using inert by (simp add: j lift_schedule_def)
  have two: "run decimal [Join 0 7 42 ''Ann'', VideoMessage 5000000 (Some ann_video)]
        (with_schedule True (23, 1) (init 30)) =
      with_schedule True (23, 1)
        (run decimal [Join 0 7 42 ''Ann'', VideoMessage 5000000 (Some ann_video)] (init 30))"
    using inert evs by blast
  have "schedule_command decimal (Some ''administrator'') [''toggle''] (init 30) =
          ((init 30)\<lparr>scheduled_mode := \<not> scheduled_mode (init 30)\<rparr>,
           [ReplyText (ScheduledModeNow (\<not> scheduled_mode (init 30)) (active_hours (init 30)))])"
    using inert admin_is_admin by blast
  then have three:
    "scheduled_mode (fst (schedule_command decimal (Some ''administrator'') [''toggle''] (init 30)))"
    by (simp add: init_def)
  show ?thesis
    using one two three by blast
qed

section \<open>A callback that runs after its timer was cancelled\<close>

lemma after_stale_callback_eq:
  "after_stale_callback = (init 30)\<lparr>
     stats := (stats (init 30))\<lparr>total_joins := 2, users_kicked := 1\<rparr>,
     timers := [\<lparr>t_interval = 30, t_args = (7, 42, ''Ann''), t_status = Fired\<rparr>,
                \<lparr>t_interval = 30, t_args = (7, 42, ''Ann''), t_status = Armed\<rparr>]\<rparr>"
  by (simp add: after_stale_callback_def stale_callback_run_def handle_new_member_def
        timer_wakes_def timer_fires_def kick_user_timeout_def kick_lock_section_def
        kick_after_lock_def kick_user_def all_succeed_def init_def new_timer_def cancel_def
        Let_def)

lemma second_join_cancels_too_late:
  "t_status (timers (run decimal [Join 0 7 42 ''Ann'', TimerWakes 0, Join 30000000 7 42 ''Ann'']
     (init 30)) ! 0) = Woken"
  by (simp add: handle_new_member_def timer_wakes_def init_def new_timer_def cancel_def Let_def)

text \<open>
  C3. The code does not keep at most one live timer per key. When Ann joins
  again after the thread of her first timer has passed its test, the
  \<open>cancel()\<close> of the join handler comes too late; the callback of the first
  timer then finds the entry of her second join under her key and deletes it.
  Her second timer stays armed and her key has no entry and is not verified.
  In interaction mode her next text message is a first interaction and arms a
  third timer, and out of interaction mode so does her next join: in both
  cases her key has two armed timers.
\<close>

theorem stale_callback_two_armed_timers:
  "t_status (timers (run decimal [Join 0 7 42 ''Ann'', TimerWakes 0, Join 30000000 7 42 ''Ann'']
     (init 30)) ! 0) = Woken
   \<and> pending_users after_stale_callback (7, 42) = None
   \<and> (7, 42) \<notin> verified_users after_stale_callback
   \<and> armed_for (7, 42) after_stale_callback = [1]
   \<and> interaction_mode (fst (interaction_mode_command (Some ''administrator'') after_stale_callback))
   \<and> \<not> bot_paused (fst (interaction_mode_command (Some ''administrator'') after_stale_callback))
   \<and> pending_users (fst (handle_text_message 40000000 (Some ann_hello)
        (fst (interaction_mode_command (Some ''administrator'') after_stale_callback)))) (7, 42) =
        Some \<lparr>timer = 2, join_time = 40000000, user_name = ''Ann''\<rparr>
   \<and> armed_for (7, 42) (fst (handle_text_message 40000000 (Some ann_hello)
        (fst (interaction_mode_command (Some ''administrator'') after_stale_callback)))) = [1, 2]
   \<and> armed_for (7, 42) (fst (handle_new_member 40000000 7 42 ''Ann'' after_stale_callback)) =
        [1, 2]"
proof -
  have "pending_users after_stale_callback (7, 42) = None
   \<and> (7, 42) \<notin> verified_users after_stale_callback
   \<and> armed_for (7, 42) after_stale_callback = [1]
   \<and> interaction_mode (fst (interaction_mode_command (Some ''administrator'') after_stale_callback))
   \<and> \<not> bot_paused (fst (interaction_mode_command (Some ''administrator'') after_stale_callback))
   \<and> pending_users (fst (handle_text_message 40000000 (Some ann_hello)
        (fst (interaction_mode_command (Some ''administrator'') after_stale_callback)))) (7, 42) =
        Some \<lparr>timer = 2, join_time = 40000000, user_name = ''Ann''\<rparr>
   \<and> armed_for (7, 42) (fst (handle_text_message 40000000 (Some ann_hello)
        (fst (interaction_mode_command (Some ''administrator'') after_stale_callback)))) = [1, 2]
   \<and> armed_for (7, 42) (fst (handle_new_member 40000000 7 42 ''Ann'' after_stale_callback)) =
        [1, 2]"
    by (simp add: after_stale_callback_eq init_def interaction_mode_command_def is_admin_def
        handle_text_message_def handle_new_member_def ann_hello_def ann_def new_timer_def
        armed_for_def key_of_def Let_def upt_rec)
  with second_join_cancels_too_late show ?thesis
    by blast
qed

theorem stale_callback_two_armed_timers_witness:
  "\<not> length (armed_for (7, 42) (fst (handle_text_message 40000000 (Some ann_hello)
        (fst (interaction_mode_command (Some ''administrator'') after_stale_callback))))) \<le> 1
   \<and> \<not> length (armed_for (7, 42)
        (fst (handle_new_member 40000000 7 42 ''Ann'' after_stale_callback))) \<le> 1"
  using stale_callback_two_armed_timers by simp

section \<open>The race for a pending entry\<close>

lemma advance_loser:
  assumes "pending_users s k = None" "call_key c = Some k" "p \<noteq> AfterLock"
  shows "advance c p s = (s, (if p = NotStarted then Done else p), [], False)"
proof (cases c)
  case (OnVideoPosted now m)
  with assms show ?thesis
    by (cases p) (auto simp: handle_video_message_def video_finds_entry_def split: option.splits)
next
  case (OnTimerFire gw cid uid uname)
  with assms show ?thesis
    by (cases p) (auto simp: kick_lock_section_def)
qed

lemma loser_step:
  assumes "pending_users (bot_state r) k = None" "list_all (\<lambda>c. call_key c = Some k) cs"
    and "length (progresses r) = length cs" "AfterLock \<notin> set (progresses r)"
  shows "\<exists>ps. interleave_step cs i r = r\<lparr>progresses := ps\<rparr> \<and> length ps = length cs
            \<and> AfterLock \<notin> set ps"
proof (cases "i < length cs")
  case True
  then have c: "call_key (cs ! i) = Some k"
    using assms(2) by (simp add: list_all_length)
  have p: "progresses r ! i \<noteq> AfterLock"
    using assms(3,4) True by (metis nth_mem)
  let ?ps = "(progresses r)[i := (if progresses r ! i = NotStarted then Done
      else progresses r ! i)]"
  have "AfterLock \<notin> set ?ps"
    using assms(4) set_update_subset_insert [of "progresses r" i] by (auto split: if_splits)
  moreover have "interleave_step cs i r = r\<lparr>progresses := ?ps\<rparr>"
    using True assms(3) advance_loser [OF assms(1) c p]
    by (simp add: interleave_step_def)
  moreover have "length ?ps = length cs"
    using assms(3) by simp
  ultimately show ?thesis by blast
next
  case False
  then show ?thesis
    using assms by (intro exI [of _ "progresses r"]) (simp add: interleave_step_def)
qed

lemma losers_change_nothing:
  assumes "pending_users (bot_state r) k = None" "list_all (\<lambda>c. call_key c = Some k) cs"
    and "length (progresses r) = length cs" "AfterLock \<notin> set (progresses r)"
  shows "bot_state (interleave cs sched r) = bot_state r
       \<and> calls_made (interleave cs sched r) = calls_made r
       \<and> winners (interleave cs sched r) = winners r"
  using assms
proof (induction sched arbitrary: r)
  case Nil
  then show ?case by simp
next
  case (Cons i sched)
  from loser_step [OF Cons.prems, of i] obtain ps where
    ps: "interleave_step cs i r = r\<lparr>progresses := ps\<rparr>" "length ps = length cs"
      "AfterLock \<notin> set ps"
    by blast
  have "bot_state (interleave cs sched (r\<lparr>progresses := ps\<rparr>)) = bot_state (r\<lparr>progresses := ps\<rparr>)
       \<and> calls_made (interleave cs sched (r\<lparr>progresses := ps\<rparr>)) = calls_made (r\<lparr>progresses := ps\<rparr>)
       \<and> winners (interleave cs sched (r\<lparr>progresses := ps\<rparr>)) = winners (r\<lparr>progresses := ps\<rparr>)"
    using Cons.prems(1,2) ps(2,3) by (intro Cons.IH) simp_all
  then show ?case
    by (simp add: ps(1))
qed

lemma winner_tail:
  assumes "pending_users (bot_state r) k = None" "list_all (\<lambda>c. call_key c = Some k) cs"
    and "length (progresses r) = length cs" "w < length cs"
    and "cs ! w = OnTimerFire gw cid uid uname" "progresses r ! w = AfterLock"
    and "\<forall>j. j < length cs \<and> j \<noteq> w \<longrightarrow> progresses r ! j \<noteq> AfterLock"
  shows "winners (interleave cs sched r) = winners r
       \<and> (if w \<in> set sched
          then bot_state (interleave cs sched r) = fst (kick_after_lock gw cid uid uname (bot_state r))
             \<and> calls_made (interleave cs sched r) =
                 calls_made r @ snd (kick_after_lock gw cid uid uname (bot_state r))
          else bot_state (interleave cs sched r) = bot_state r
             \<and> calls_made (interleave cs sched r) = calls_made r)"
  using assms
proof (induction sched arbitrary: r)
  case Nil
  then show ?case by simp
next
  case (Cons i sched)
  show ?case
  proof (cases "i = w")
    case True
    let ?r1 = "r\<lparr>bot_state := fst (kick_after_lock gw cid uid uname (bot_state r)),
                 progresses := (progresses r)[w := Done],
                 calls_made := calls_made r @ snd (kick_after_lock gw cid uid uname (bot_state r))\<rparr>"
    have step: "interleave_step cs i r = ?r1"
      using True Cons.prems(3-6)
      by (simp add: interleave_step_def Let_def split: prod.splits)
    have none: "AfterLock \<notin> set (progresses ?r1)"
    proof
      assume "AfterLock \<in> set (progresses ?r1)"
      then obtain j where j: "j < length (progresses r)" "(progresses r)[w := Done] ! j = AfterLock"
        by (auto simp: in_set_conv_nth)
      then show False
        using Cons.prems(3,7) by (cases "j = w") auto
    qed
    have "bot_state (interleave cs sched ?r1) = bot_state ?r1
       \<and> calls_made (interleave cs sched ?r1) = calls_made ?r1
       \<and> winners (interleave cs sched ?r1) = winners ?r1"
      using Cons.prems(1,2,3) none
      by (intro losers_change_nothing [where k = k]) (simp_all add: kick_after_lock_fields)
    then show ?thesis
      using True step by simp
  next
    case False
    show ?thesis
    proof (cases "i < length cs")
      case valid: True
      then have c: "call_key (cs ! i) = Some k"
        using Cons.prems(2) by (simp add: list_all_length)
      have p: "progresses r ! i \<noteq> AfterLock"
        using Cons.prems(7) valid False by blast
      let ?p' = "if progresses r ! i = NotStarted then Done else progresses r ! i"
      let ?r1 = "r\<lparr>progresses := (progresses r)[i := ?p']\<rparr>"
      have step: "interleave_step cs i r = ?r1"
        using valid Cons.prems(3) advance_loser [OF Cons.prems(1) c p]
        by (simp add: interleave_step_def)
      have "winners (interleave cs sched ?r1) = winners ?r1
       \<and> (if w \<in> set sched
          then bot_state (interleave cs sched ?r1) =
                 fst (kick_after_lock gw cid uid uname (bot_state ?r1))
             \<and> calls_made (interleave cs sched ?r1) =
                 calls_made ?r1 @ snd (kick_after_lock gw cid uid uname (bot_state ?r1))
          else bot_state (interleave cs sched ?r1) = bot_state ?r1
             \<and> calls_made (interleave cs sched ?r1) = calls_made ?r1)"
      proof (intro Cons.IH)
        show "\<forall>j. j < length cs \<and> j \<noteq> w \<longrightarrow> progresses ?r1 ! j \<noteq> AfterLock"
        proof (intro allI impI)
          fix j
          assume "j < length cs \<and> j \<noteq> w"
          then show "progresses ?r1 ! j \<noteq> AfterLock"
            using Cons.prems(3,7) p by (cases "j = i") auto
        qed
      qed (use Cons.prems False in auto)
      then show ?thesis
        using False by (simp add: step)
    next
      case invalid: False
      then have step: "interleave_step cs i r = r"
        by (simp add: interleave_step_def)
      show ?thesis
        using Cons.IH [OF Cons.prems] False by (simp add: step)
    qed
  qed
qed

lemma replicate_update_no_afterlock:
  "AfterLock \<notin> set ((replicate n NotStarted)[w := Done])"
proof
  assume "AfterLock \<in> set ((replicate n NotStarted)[w := Done])"
  then obtain j where "j < n" "(replicate n NotStarted)[w := Done] ! j = AfterLock"
    by (auto simp: in_set_conv_nth)
  then show False
    by (cases "j = w") auto
qed

lemma start_fields:
  "bot_state (start s cs) = s" "calls_made (start s cs) = []" "winners (start s cs) = []"
  "progresses (start s cs) = replicate (length cs) NotStarted"
  by (simp_all add: start_def)

lemma video_wins:
  assumes "pending_users s k = Some e" "list_all (\<lambda>c. call_key c = Some k) cs" "w < length cs"
    and "cs ! w = OnVideoPosted now m"
  shows "winners (interleave cs (w # rest) (start s cs)) = [w]
       \<and> bot_state (interleave cs (w # rest) (start s cs)) = fst (handle_video_message now (Some m) s)
       \<and> calls_made (interleave cs (w # rest) (start s cs)) = snd (handle_video_message now (Some m) s)
       \<and> pending_users (fst (handle_video_message now (Some m) s)) k = None
       \<and> k \<in> verified_users (fst (handle_video_message now (Some m) s))
       \<and> users_verified (stats (fst (handle_video_message now (Some m) s))) =
           users_verified (stats s) + 1"
proof -
  have "call_key (cs ! w) = Some k"
    using assms(2,3) by (simp add: list_all_length)
  then obtain u where u: "from_user m = Some u" "k = (chat_id m, user_id u)"
    using assms(4) by (auto split: option.splits)
  let ?s1 = "fst (handle_video_message now (Some m) s)"
  let ?r1 = "(start s cs)\<lparr>bot_state := ?s1,
                 progresses := (replicate (length cs) NotStarted)[w := Done],
                 calls_made := snd (handle_video_message now (Some m) s), winners := [w]\<rparr>"
  have step: "interleave_step cs w (start s cs) = ?r1"
    using assms(1,3,4) u
    by (simp add: interleave_step_def start_def video_finds_entry_def split: prod.splits)
  have gone: "pending_users ?s1 k = None"
    using assms(1) u by (simp add: handle_video_message_def video_verify_def Let_def)
  have ver: "k \<in> verified_users ?s1"
    "users_verified (stats ?s1) = users_verified (stats s) + 1"
    using assms(1) u by (simp_all add: handle_video_message_def video_verify_def Let_def)
  have "bot_state (interleave cs rest ?r1) = bot_state ?r1
       \<and> calls_made (interleave cs rest ?r1) = calls_made ?r1
       \<and> winners (interleave cs rest ?r1) = winners ?r1"
    using gone assms(2) replicate_update_no_afterlock [of "length cs" w]
    by (intro losers_change_nothing [where k = k]) (simp_all add: start_fields)
  then show ?thesis
    using gone ver by (simp add: step)
qed

lemma timer_wins:
  assumes "pending_users s k = Some e" "list_all (\<lambda>c. call_key c = Some k) cs" "w < length cs"
    and "cs ! w = OnTimerFire gw cid uid uname"
  shows "winners (interleave cs (w # rest) (start s cs)) = [w]
       \<and> pending_users (bot_state (interleave cs (w # rest) (start s cs))) k = None
       \<and> verified_users (bot_state (interleave cs (w # rest) (start s cs))) = verified_users s
       \<and> users_verified (stats (bot_state (interleave cs (w # rest) (start s cs)))) =
           users_verified (stats s)
       \<and> (if w \<in> set rest
          then bot_state (interleave cs (w # rest) (start s cs)) =
                 fst (kick_user_timeout gw cid uid uname s)
             \<and> calls_made (interleave cs (w # rest) (start s cs)) =
                 snd (kick_user_timeout gw cid uid uname s)
          else bot_state (interleave cs (w # rest) (start s cs)) =
                 s\<lparr>pending_users := (pending_users s)(k := None)\<rparr>
             \<and> calls_made (interleave cs (w # rest) (start s cs)) = [])"
proof -
  have "call_key (cs ! w) = Some k"
    using assms(2,3) by (simp add: list_all_length)
  then have k: "k = (cid, uid)"
    using assms(4) by simp
  let ?s1 = "s\<lparr>pending_users := (pending_users s)(k := None)\<rparr>"
  let ?r1 = "(start s cs)\<lparr>bot_state := ?s1,
                 progresses := (replicate (length cs) NotStarted)[w := AfterLock],
                 winners := [w]\<rparr>"
  have step: "interleave_step cs w (start s cs) = ?r1"
    using assms(1,3,4) k
    by (simp add: interleave_step_def start_def kick_lock_section_def)
  have whole: "kick_user_timeout gw cid uid uname s = kick_after_lock gw cid uid uname ?s1"
    using assms(1) k by (simp add: kick_user_timeout_def kick_lock_section_def)
  have p1: "pending_users (bot_state ?r1) k = None" by simp
  have p3: "length (progresses ?r1) = length cs" by (simp add: start_def)
  have p6: "progresses ?r1 ! w = AfterLock" using assms(3) by (simp add: start_def)
  have p7: "\<forall>j. j < length cs \<and> j \<noteq> w \<longrightarrow> progresses ?r1 ! j \<noteq> AfterLock"
    by (simp add: start_def)
  note tail = winner_tail [OF p1 assms(2) p3 assms(3) assms(4) p6 p7, of rest]
  show ?thesis
    using tail by (simp add: step whole kick_after_lock_fields start_fields)
qed

text \<open>
  C1. Calls of \<open>handle_video_message\<close> and \<open>_kick_user_timeout\<close> on one key
  run in any interleaving of their atomic parts, the call scheduled first being
  number \<open>w\<close>. If the key has a pending entry at the start, \<open>w\<close> is the only call
  that finds the entry, and the entry is gone afterwards. The interleaving as a
  whole changes the state and calls the gateway exactly as the winner alone
  does: a winning video handler verifies the key; a winning callback removes
  the entry and does not verify it, and once its part after the lock has run
  it has done what \<open>_kick_user_timeout\<close> does on the starting state. Every
  other call finds no entry and does nothing.
\<close>

theorem one_call_wins_the_entry:
  assumes "pending_users s k = Some e"
    and "list_all (\<lambda>c. call_key c = Some k) cs"
    and "w < length cs"
  shows "winners (interleave cs (w # rest) (start s cs)) = [w]
       \<and> pending_users (bot_state (interleave cs (w # rest) (start s cs))) k = None
       \<and> (\<forall>now m. cs ! w = OnVideoPosted now m \<longrightarrow>
            bot_state (interleave cs (w # rest) (start s cs)) =
              fst (handle_video_message now (Some m) s)
          \<and> calls_made (interleave cs (w # rest) (start s cs)) =
              snd (handle_video_message now (Some m) s)
          \<and> k \<in> verified_users (bot_state (interleave cs (w # rest) (start s cs)))
          \<and> users_verified (stats (bot_state (interleave cs (w # rest) (start s cs)))) =
              users_verified (stats s) + 1)
       \<and> (\<forall>gw cid uid uname. cs ! w = OnTimerFire gw cid uid uname \<longrightarrow>
            verified_users (bot_state (interleave cs (w # rest) (start s cs))) = verified_users s
          \<and> users_verified (stats (bot_state (interleave cs (w # rest) (start s cs)))) =
              users_verified (stats s)
          \<and> (w \<in> set rest \<longrightarrow>
               bot_state (interleave cs (w # rest) (start s cs)) =
                 fst (kick_user_timeout gw cid uid uname s)
             \<and> calls_made (interleave cs (w # rest) (start s cs)) =
                 snd (kick_user_timeout gw cid uid uname s))
          \<and> (w \<notin> set rest \<longrightarrow>
               bot_state (interleave cs (w # rest) (start s cs)) =
                 s\<lparr>pending_users := (pending_users s)(k := None)\<rparr>
             \<and> calls_made (interleave cs (w # rest) (start s cs)) = []))"
proof (cases "cs ! w")
  case (OnVideoPosted now m)
  from video_wins [OF assms this, of rest] show ?thesis
    using OnVideoPosted by simp
next
  case (OnTimerFire gw cid uid uname)
  from timer_wins [OF assms this, of rest] show ?thesis
    using OnTimerFire by (simp split: if_splits)
qed

lemma race_calls_facts:
  "list_all (\<lambda>c. call_key c = Some (7, 42)) race_calls" "length race_calls = 3"
  "race_calls ! 0 = OnTimerFire all_succeed 7 42 ''Ann''"
  "race_calls ! 1 = OnVideoPosted 5000000 ann_video"
  by (simp_all add: race_calls_def ann_video_def ann_def)

lemma ann_joined_entry:
  "pending_users ann_joined (7, 42) = Some \<lparr>timer = 0, join_time = 0, user_name = ''Ann''\<rparr>"
  by (simp add: ann_joined_eq)

theorem one_call_wins_the_entry_witness:
  "winners (interleave race_calls [1, 0, 2, 0] (start ann_joined race_calls)) = [1]
   \<and> (7, 42) \<in> verified_users (bot_state (interleave race_calls [1, 0, 2, 0]
          (start ann_joined race_calls)))
   \<and> calls_made (interleave race_calls [1, 0, 2, 0] (start ann_joined race_calls)) =
       [SendMessage 7 (VerifiedWithPoints ''Ann'' 5000000 100 100)]
   \<and> winners (interleave race_calls [0, 1, 0, 2] (start ann_joined race_calls)) = [0]
   \<and> calls_made (interleave race_calls [0, 1, 0, 2] (start ann_joined race_calls)) =
       [BanChatMember 7 42, UnbanChatMember 7 42, SendMessage 7 (KickNotice ''Ann'' 30)]"
proof -
  have w1: "(1::nat) < length race_calls" and w0: "(0::nat) < length race_calls"
    by (simp_all add: race_calls_facts)
  note video = one_call_wins_the_entry [OF ann_joined_entry race_calls_facts(1) w1, of "[0, 2, 0]"]
  note fire = one_call_wins_the_entry [OF ann_joined_entry race_calls_facts(1) w0, of "[1, 0, 2]"]
  have v: "snd (handle_video_message 5000000 (Some ann_video) ann_joined) =
      [SendMessage 7 (VerifiedWithPoints ''Ann'' 5000000 100 100)]"
    by (simp add: handle_video_message_def video_verify_def ann_video_def ann_def ann_joined_eq
          init_def Let_def add_points_def ledger_total_def)
  have f: "snd (kick_user_timeout all_succeed 7 42 ''Ann'' ann_joined) =
      [BanChatMember 7 42, UnbanChatMember 7 42, SendMessage 7 (KickNotice ''Ann'' 30)]"
    by (simp add: kick_user_timeout_def kick_lock_section_def kick_after_lock_def kick_user_def
          ann_joined_eq init_def all_succeed_def Let_def)
  have a: "winners (interleave race_calls [1, 0, 2, 0] (start ann_joined race_calls)) = [1]"
    "(7, 42) \<in> verified_users (bot_state (interleave race_calls [1, 0, 2, 0]
          (start ann_joined race_calls)))"
    "calls_made (interleave race_calls [1, 0, 2, 0] (start ann_joined race_calls)) =
       snd (handle_video_message 5000000 (Some ann_video) ann_joined)"
    using video race_calls_facts(4) by blast+
  have "(0::nat) \<in> set [1, 0, 2]" by simp
  then have b: "winners (interleave race_calls [0, 1, 0, 2] (start ann_joined race_calls)) = [0]"
    "calls_made (interleave race_calls [0, 1, 0, 2] (start ann_joined race_calls)) =
       snd (kick_user_timeout all_succeed 7 42 ''Ann'' ann_joined)"
    using fire race_calls_facts(3) by blast+
  show ?thesis
    using a b v f by metis
qed

end
